theory Spec2Isabelle
  imports Main "HOL-Library.Sublist" "HOL-Library.Multiset"
begin

section \<open>Messages and bundles\<close>

text \<open>
  The data of \<^verbatim>\<open>messages.ts\<close> as the formatters and the transformer use it: message
  contents are a sequence of plain strings and placeholders
  (\<^verbatim>\<open>Array<string | Placeholder>\<close>, a placeholder being \<^verbatim>\<open>{untranslatable: string}\<close>).
  A \<^verbatim>\<open>ProgramMessage\<close> is a \<^verbatim>\<open>Message\<close> with the description stack the writers read.
\<close>

datatype content = Str string | Placeholder (untranslatable: string)

record Message =
  name :: string
  contents :: "content list"

record ProgramMessage = Message +
  descStack :: "string list"

record Bundle =
  bundleLocale :: string
  messages :: "Message list"

text \<open>
  Exceptions are values. \<^verbatim>\<open>KnownError\<close> is the user-facing error class of \<^verbatim>\<open>error.ts\<close>,
  \<^verbatim>\<open>Error\<close> the plain JavaScript error, \<^verbatim>\<open>IOError\<close> a rejected file-system call with its
  \<^verbatim>\<open>err.code\<close>.
\<close>

datatype error = KnownError string | Error string | IOError string

text \<open>Running a fallible step over a list in order; the first exception ends the loop.\<close>

fun traverse :: "('a \<Rightarrow> error + 'b) \<Rightarrow> 'a list \<Rightarrow> error + 'b list" where
  "traverse f [] = Inr []"
| "traverse f (x # xs) =
     (case f x of
        Inl e \<Rightarrow> Inl e
      | Inr y \<Rightarrow> (case traverse f xs of Inl e \<Rightarrow> Inl e | Inr ys \<Rightarrow> Inr (y # ys)))"

text \<open>\<^verbatim>\<open>String(n)\<close> on a non-negative integer: its decimal digits.\<close>

definition digit :: "nat \<Rightarrow> char" where
  "digit d = char_of (48 + d)"

function string_of_nat :: "nat \<Rightarrow> string" where
  "string_of_nat n =
     (if n < 10 then [digit n] else string_of_nat (n div 10) @ [digit (n mod 10)])"
  by pat_completeness auto
termination
  by (relation "measure id") auto

declare string_of_nat.simps [simp del]

section \<open>The DOM the formatters build and read\<close>

text \<open>
  The part of the W3C DOM (as \<^verbatim>\<open>xmldom\<close> implements it) that \<^verbatim>\<open>xliff.ts\<close> and the XLB
  formatter touch: a tree of nodes with \<^verbatim>\<open>nodeType\<close>, \<^verbatim>\<open>nodeName\<close>, \<^verbatim>\<open>nodeValue\<close>,
  \<^verbatim>\<open>childNodes\<close>, attributes in insertion order and \<^verbatim>\<open>getElementsByTagName\<close>.
\<close>

datatype node =
    Element string "(string \<times> string) list" "node list"
  | Text string
  | CDataSection string
  | ProcessingInstruction string string
  | Comment string
  | Document "node list"

definition ELEMENT_NODE :: nat where "ELEMENT_NODE = 1"
definition TEXT_NODE :: nat where "TEXT_NODE = 3"

fun nodeType :: "node \<Rightarrow> nat" where
  "nodeType (Element _ _ _) = 1"
| "nodeType (Text _) = 3"
| "nodeType (CDataSection _) = 4"
| "nodeType (ProcessingInstruction _ _) = 7"
| "nodeType (Comment _) = 8"
| "nodeType (Document _) = 9"

fun nodeName :: "node \<Rightarrow> string" where
  "nodeName (Element n _ _) = n"
| "nodeName (Text _) = ''#text''"
| "nodeName (CDataSection _) = ''#cdata-section''"
| "nodeName (ProcessingInstruction t _) = t"
| "nodeName (Comment _) = ''#comment''"
| "nodeName (Document _) = ''#document''"

text \<open>\<^verbatim>\<open>node.nodeValue || ''\<close>: the character data of a node, the empty string where there is none.\<close>

fun nodeValue :: "node \<Rightarrow> string" where
  "nodeValue (Text s) = s"
| "nodeValue (CDataSection s) = s"
| "nodeValue (ProcessingInstruction _ d) = d"
| "nodeValue (Comment s) = s"
| "nodeValue _ = []"

fun childNodes :: "node \<Rightarrow> node list" where
  "childNodes (Element _ _ cs) = cs"
| "childNodes (Document cs) = cs"
| "childNodes _ = []"

fun getAttribute :: "node \<Rightarrow> string \<Rightarrow> string option" where
  "getAttribute (Element _ as _) a = map_of as a"
| "getAttribute _ a = None"

text \<open>
  \<^verbatim>\<open>getElementsByTagName\<close>: every element of that name below the node, at any depth, in
  document order; the node itself is not among them. \<open>subtreeElements\<close> is the walk
  that includes the node it starts from.
\<close>

fun subtreeElements :: "string \<Rightarrow> node \<Rightarrow> node list" where
  "subtreeElements tag (Element n as cs) =
     (if n = tag then [Element n as cs] else []) @ concat (map (subtreeElements tag) cs)"
| "subtreeElements tag (Document cs) = concat (map (subtreeElements tag) cs)"
| "subtreeElements tag _ = []"

definition getElementsByTagName :: "node \<Rightarrow> string \<Rightarrow> node list" where
  "getElementsByTagName n tag = concat (map (subtreeElements tag) (childNodes n))"

text \<open>
  Modelled from the spec: \<^verbatim>\<open>getOneElementByTagNameOrThrow\<close> and
  \<^verbatim>\<open>getNonEmptyAttributeOrThrow\<close> of \<^verbatim>\<open>xml-utils.ts\<close>, which is not among the sources.
  The spec: absence of the expected top-level element, or more than one candidate, is a
  fatal parse error; so is the absence of the mandatory attribute; messages with an empty
  name are rejected. The wording of their messages is not given and nothing below rests
  on it.
\<close>

definition getOneElementByTagNameOrThrow :: "node \<Rightarrow> string \<Rightarrow> error + node" where
  "getOneElementByTagNameOrThrow n tag =
     (case getElementsByTagName n tag of
        [e] \<Rightarrow> Inr e
      | _ \<Rightarrow> Inl (KnownError (''Expected 1 <'' @ tag @ ''> element'')))"

definition getNonEmptyAttributeOrThrow :: "node \<Rightarrow> string \<Rightarrow> error + string" where
  "getNonEmptyAttributeOrThrow e a =
     (case getAttribute e a of
        None \<Rightarrow> Inl (KnownError (''Expected non-empty attribute '' @ a))
      | Some v \<Rightarrow> if v = [] then Inl (KnownError (''Expected non-empty attribute '' @ a)) else Inr v)"

section \<open>Reading a unit's children\<close>

text \<open>
  The body of the inner loop of \<^verbatim>\<open>parseXlif\<close> (over \<^verbatim>\<open>target.childNodes\<close>) and of
  \<^verbatim>\<open>parseXmb\<close> (over \<^verbatim>\<open>msg.childNodes\<close>). The two loops are the same text but for the
  element named in the last message (\<^verbatim>\<open>trans-unit\<close>, \<^verbatim>\<open>msg\<close>), here \<open>unit\<close>.
\<close>

definition ph_error :: error where
  "ph_error = KnownError ''Expected <ph> to have exactly one text node''"

definition unexpected_node :: "string \<Rightarrow> node \<Rightarrow> error" where
  "unexpected_node unit child =
     KnownError (''Unexpected node in <'' @ unit @ ''>: '' @
                 string_of_nat (nodeType child) @ '' '' @ nodeName child)"

definition parseChild :: "string \<Rightarrow> node \<Rightarrow> error + content" where
  "parseChild unit child =
     (if nodeType child = TEXT_NODE then Inr (Str (nodeValue child))
      else if nodeType child = ELEMENT_NODE \<and> nodeName child = ''ph'' then
        (case childNodes child of
           [phText] \<Rightarrow>
             if nodeType phText \<noteq> TEXT_NODE then Inl ph_error
             else Inr (Placeholder (nodeValue phText))
         | _ \<Rightarrow> Inl ph_error)
      else Inl (unexpected_node unit child))"

definition parseContents :: "string \<Rightarrow> node list \<Rightarrow> error + content list" where
  "parseContents unit children = traverse (parseChild unit) children"

section \<open>The XLB formatter: reading\<close>

definition parseMsg :: "node \<Rightarrow> error + Message" where
  "parseMsg msg =
     (case getNonEmptyAttributeOrThrow msg ''name'' of
        Inl e \<Rightarrow> Inl e
      | Inr nm \<Rightarrow>
          (case parseContents ''msg'' (childNodes msg) of
             Inl e \<Rightarrow> Inl e
           | Inr cs \<Rightarrow> Inr \<lparr>name = nm, contents = cs\<rparr>))"

definition parseXmb :: "node \<Rightarrow> error + Bundle" where
  "parseXmb doc =
     (case getOneElementByTagNameOrThrow doc ''localizationbundle'' of
        Inl e \<Rightarrow> Inl e
      | Inr bundle \<Rightarrow>
          (case getNonEmptyAttributeOrThrow bundle ''locale'' of
             Inl e \<Rightarrow> Inl e
           | Inr loc \<Rightarrow>
               (case traverse parseMsg (getElementsByTagName doc ''msg'') of
                  Inl e \<Rightarrow> Inl e
                | Inr ms \<Rightarrow> Inr \<lparr>bundleLocale = loc, messages = ms\<rparr>)))"

section \<open>The XLIFF formatter: reading\<close>

text \<open>
  One iteration of the loop over the \<^verbatim>\<open>trans-unit\<close> elements: \<open>None\<close> is the
  \<^verbatim>\<open>continue\<close> of a unit with no \<^verbatim>\<open>target\<close>.
\<close>

definition parseTransUnit :: "node \<Rightarrow> error + Message option" where
  "parseTransUnit transUnit =
     (case getNonEmptyAttributeOrThrow transUnit ''id'' of
        Inl e \<Rightarrow> Inl e
      | Inr nm \<Rightarrow>
          (case getElementsByTagName transUnit ''target'' of
             [] \<Rightarrow> Inr None
           | [target] \<Rightarrow>
               (case parseContents ''trans-unit'' (childNodes target) of
                  Inl e \<Rightarrow> Inl e
                | Inr cs \<Rightarrow> Inr (Some \<lparr>name = nm, contents = cs\<rparr>))
           | targets \<Rightarrow>
               Inl (KnownError (''Expected 0 or 1 <target> in <trans-unit>, got '' @
                                string_of_nat (length targets)))))"

definition parseXlif :: "node \<Rightarrow> error + Bundle" where
  "parseXlif doc =
     (case getOneElementByTagNameOrThrow doc ''file'' of
        Inl e \<Rightarrow> Inl e
      | Inr file \<Rightarrow>
          (case getNonEmptyAttributeOrThrow file ''target-language'' of
             Inl e \<Rightarrow> Inl e
           | Inr loc \<Rightarrow>
               (case traverse parseTransUnit (getElementsByTagName file ''trans-unit'') of
                  Inl e \<Rightarrow> Inl e
                | Inr ms \<Rightarrow> Inr \<lparr>bundleLocale = loc, messages = List.map_filter id ms\<rparr>)))"

section \<open>Writing: the documents the formatters serialize\<close>

text \<open>
  \<^verbatim>\<open>indent(node, level)\<close> appends the text node
  \<^verbatim>\<open>'\n' + Array(level + 1).join('  ')\<close>: a newline and \<open>level\<close> times two spaces.
\<close>

definition indent :: "nat \<Rightarrow> node" where
  "indent level = Text (CHR 0x0A # concat (replicate level ''  ''))"

text \<open>\<^verbatim>\<open>descStack.join(' / ')\<close>.\<close>

fun join :: "string \<Rightarrow> string list \<Rightarrow> string" where
  "join sep [] = []"
| "join sep [x] = x"
| "join sep (x # y # ys) = x @ sep @ join sep (y # ys)"

definition xmlDeclaration :: node where
  "xmlDeclaration = ProcessingInstruction ''xml'' ''version=\"1.0\" encoding=\"UTF-8\"''"

subsection \<open>XLB\<close>

text \<open>
  The document \<^verbatim>\<open>XlbFormatter.writeOutput\<close> builds before it hands it to
  \<^verbatim>\<open>XMLSerializer\<close>, child by child in the order of the \<^verbatim>\<open>appendChild\<close> calls.
\<close>

fun xlbContent :: "content \<Rightarrow> node" where
  "xlbContent (Str s) = Text s"
| "xlbContent (Placeholder u) = Element ''ph'' [] [Text u]"

definition xlbMessageNode :: "'a ProgramMessage_scheme \<Rightarrow> node" where
  "xlbMessageNode m =
     Element ''msg''
       ((''name'', name m) #
        (if length (descStack m) > 0 then [(''desc'', join '' / '' (descStack m))] else []))
       (map xlbContent (contents m))"

definition xlbMessagesNode :: "'a ProgramMessage_scheme list \<Rightarrow> node" where
  "xlbMessagesNode sourceMessages =
     Element ''messages'' []
       (concat (map (\<lambda>m. [indent 2, xlbMessageNode m]) sourceMessages) @ [indent 1])"

definition xlbDocument :: "string \<Rightarrow> 'a ProgramMessage_scheme list \<Rightarrow> node" where
  "xlbDocument sourceLocale sourceMessages =
     Document
       [xmlDeclaration, indent 0,
        Element ''localizationbundle'' [(''locale'', sourceLocale)]
          [indent 1, xlbMessagesNode sourceMessages, indent 0],
        indent 0]"

subsection \<open>XLIFF\<close>

text \<open>
  \<^verbatim>\<open>encodeContents\<close>: the placeholder counter \<^verbatim>\<open>phIdx\<close> is the accumulator; it
  starts at 0 and counts placeholders only.
\<close>

fun encodeContentsFrom :: "nat \<Rightarrow> content list \<Rightarrow> node list" where
  "encodeContentsFrom phIdx [] = []"
| "encodeContentsFrom phIdx (Str s # rest) = Text s # encodeContentsFrom phIdx rest"
| "encodeContentsFrom phIdx (Placeholder u # rest) =
     Element ''ph'' [(''id'', string_of_nat phIdx)] [Text u] # encodeContentsFrom (Suc phIdx) rest"

definition encodeContents :: "content list \<Rightarrow> node list" where
  "encodeContents cs = encodeContentsFrom 0 cs"

text \<open>
  \<^verbatim>\<open>makeMessageIdMap\<close> (of \<^verbatim>\<open>messages.ts\<close>, not among the sources) is a parameter of
  \<^verbatim>\<open>encodeLocale\<close>: \<open>translationsByName\<close> is the map it returned for the target messages.
\<close>

definition transUnitNode ::
  "(string \<rightharpoonup> 'b Message_scheme) \<Rightarrow> 'a ProgramMessage_scheme \<Rightarrow> node" where
  "transUnitNode translationsByName m =
     Element ''trans-unit'' [(''id'', name m)]
       ([indent 1] @
        (if length (descStack m) > 0
         then [Element ''note'' [] [Text (join '' / '' (descStack m))], indent 1] else []) @
        [Element ''source'' [] (encodeContents (contents m))] @
        (case translationsByName (name m) of
           Some translation \<Rightarrow>
             [indent 1, Element ''target'' [] (encodeContents (contents translation))]
         | None \<Rightarrow> []) @
        [indent 0])"

definition encodeLocale ::
  "string \<Rightarrow> (string \<rightharpoonup> 'b Message_scheme) \<Rightarrow> 'a ProgramMessage_scheme list \<Rightarrow> string \<Rightarrow> node"
  where
  "encodeLocale sourceLocale translationsByName sourceMessages targetLocale =
     Document
       [xmlDeclaration, indent 0,
        Element ''xliff''
          [(''version'', ''1.2''),
           (''xmlns'', ''http://www.w3.org/2001/XMLSchema-instance''),
           (''xsi:schemaLocation'',
            ''urn:oasis:names:tc:xliff:document:1.2 xliff-core-1.2-strict.xsd'')]
          [indent 0,
           Element ''file''
             [(''target-language'', targetLocale),
              (''source-language'', sourceLocale),
              (''original'', ''lit-localize-inputs''),
              (''datatype'', ''plaintext'')]
             [indent 0,
              Element ''body'' []
                (indent 0 #
                 concat (map (\<lambda>m. [transUnitNode translationsByName m, indent 0])
                           sourceMessages)),
              indent 0],
           indent 0],
        indent 0]"

section \<open>The shape of a unit's children, in the words of the specification\<close>

text \<open>
  What the specification accepts as a child of a translatable unit: a text node, or an
  element named \<^verbatim>\<open>ph\<close> whose children are exactly one text node. \<open>below d n\<close> says that
  \<open>d\<close> is a descendant of \<open>n\<close>, at any depth.
\<close>

fun isText :: "node \<Rightarrow> bool" where
  "isText (Text _) = True"
| "isText _ = False"

fun isElementNamed :: "string \<Rightarrow> node \<Rightarrow> bool" where
  "isElementNamed tag (Element n _ _) = (n = tag)"
| "isElementNamed tag _ = False"

definition hasOneTextChild :: "node \<Rightarrow> bool" where
  "hasOneTextChild n = (case childNodes n of [t] \<Rightarrow> isText t | _ \<Rightarrow> False)"

definition acceptedChild :: "node \<Rightarrow> bool" where
  "acceptedChild child = (isText child \<or> (isElementNamed ''ph'' child \<and> hasOneTextChild child))"

fun contentOf :: "node \<Rightarrow> content" where
  "contentOf (Text s) = Str s"
| "contentOf n = Placeholder (concat (map nodeValue (childNodes n)))"

inductive below :: "node \<Rightarrow> node \<Rightarrow> bool" where
  child: "c \<in> set (childNodes n) \<Longrightarrow> below c n"
| deeper: "below d c \<Longrightarrow> c \<in> set (childNodes n) \<Longrightarrow> below d n"

section \<open>The XLIFF formatter: reading the files\<close>

text \<open>
  \<^verbatim>\<open>XliffFormatter.readTranslations\<close>. What lies outside the repository is a parameter:
  \<open>resolve\<close> is \<^verbatim>\<open>config.resolve\<close>, \<open>pathJoin\<close> is Node's \<^verbatim>\<open>path.join\<close>, \<open>readFile\<close>
  answers \<^verbatim>\<open>fsExtra.readFile(path, 'utf8')\<close> with the file's text or the error it rejects
  with, \<open>parseFromString\<close> is \<^verbatim>\<open>xmldom\<close>'s \<^verbatim>\<open>DOMParser\<close>.
\<close>

record Platform =
  resolve :: "string \<Rightarrow> string"
  pathJoin :: "string \<Rightarrow> string \<Rightarrow> string"
  readFile :: "string \<Rightarrow> error + string"
  parseFromString :: "string \<Rightarrow> node"

record Config =
  sourceLocale :: string
  targetLocales :: "string list"
  xliffDir :: string

text \<open>\<^verbatim>\<open>err.code\<close>: only a rejected file-system call carries one.\<close>

fun code :: "error \<Rightarrow> string option" where
  "code (IOError c) = Some c"
| "code _ = None"

definition xlfPath :: "Platform \<Rightarrow> Config \<Rightarrow> string \<Rightarrow> string" where
  "xlfPath p config loc = pathJoin p (resolve p (xliffDir config)) (loc @ ''.xlf'')"

text \<open>
  The body of the \<^verbatim>\<open>async\<close> closure pushed for one locale: \<open>Inr None\<close> is its
  \<^verbatim>\<open>return null\<close>, \<open>Inl\<close> its rejection.
\<close>

definition readLocale :: "Platform \<Rightarrow> Config \<Rightarrow> string \<Rightarrow> error + Bundle option" where
  "readLocale p config loc =
     (case readFile p (xlfPath p config loc) of
        Inl err \<Rightarrow> if code err = Some ''ENOENT'' then Inr None else Inl err
      | Inr xmlStr \<Rightarrow>
          (case parseXlif (parseFromString p xmlStr) of
             Inl e \<Rightarrow> Inl e
           | Inr bundle \<Rightarrow> Inr (Some bundle)))"

text \<open>
  The result is a pair: the paths handed to \<^verbatim>\<open>readFile\<close>, and the outcome of
  \<^verbatim>\<open>Promise.all\<close> followed by the filter that drops the \<^verbatim>\<open>null\<close>s. Every closure is
  started, and so calls \<^verbatim>\<open>readFile\<close>, before any of them is awaited: the reads do not
  depend on each other's outcome. \<^verbatim>\<open>Promise.all\<close> rejects with the rejection that settles
  first; the model reports the one of the first locale in the list, and the theorems
  below only use that the operation fails.
\<close>

definition readTranslations :: "Platform \<Rightarrow> Config \<Rightarrow> string list \<times> (error + Bundle list)" where
  "readTranslations p config =
     (map (xlfPath p config) (targetLocales config),
      (case traverse (readLocale p config) (targetLocales config) of
         Inl e \<Rightarrow> Inl e
       | Inr bundles \<Rightarrow> Inr (List.map_filter id bundles)))"

text \<open>
  What one locale contributes to the result, in the words of the specification: the bundle
  parsed from its file, nothing when the file cannot be read.
\<close>

definition bundlesRead :: "Platform \<Rightarrow> Config \<Rightarrow> string \<Rightarrow> Bundle list" where
  "bundlesRead p config loc =
     (case readFile p (xlfPath p config loc) of
        Inl err \<Rightarrow> []
      | Inr xmlStr \<Rightarrow> (case parseXlif (parseFromString p xmlStr) of Inl e \<Rightarrow> [] | Inr b \<Rightarrow> [b]))"

text \<open>A small file system for the examples: one file present, one missing, the rest unreadable.\<close>

definition demoFs :: "string \<Rightarrow> error + string" where
  "demoFs path =
     (if path = ''xliff/es.xlf'' then Inr ''<es>''
      else if path = ''xliff/fr.xlf'' then Inl (IOError ''ENOENT'')
      else Inl (IOError ''EACCES''))"

definition demoDoc :: node where
  "demoDoc = Document [Element ''xliff'' [] [Element ''file'' [(''target-language'', ''es'')]
       [Element ''body'' [] [Element ''trans-unit'' [(''id'', ''greeting'')]
          [Element ''source'' [] [Text ''Hello''], Element ''target'' [] [Text ''Hola'']]]]]]"

definition demoPlatform :: Platform where
  "demoPlatform = \<lparr>resolve = (\<lambda>d. d), pathJoin = (\<lambda>d f. d @ ''/'' @ f), readFile = demoFs,
                    parseFromString = (\<lambda>s. demoDoc)\<rparr>"

section \<open>What serializing and parsing again does to a document\<close>

text \<open>
  The formatters hand their document to \<^verbatim>\<open>XMLSerializer\<close> and read files back through
  \<^verbatim>\<open>DOMParser\<close>; both belong to \<^verbatim>\<open>xmldom\<close>. In XML text neither the boundary between two
  adjacent text nodes nor an empty text node can be written down, so the document that is
  read back is the written one in the normal form of DOM's \<^verbatim>\<open>Node.normalize()\<close> (the
  form a document has ``as if it were saved and re-loaded''): adjacent text nodes are
  one node, empty text nodes are gone.
\<close>

fun mergeText :: "node list \<Rightarrow> node list" where
  "mergeText [] = []"
| "mergeText (Text s # rest) =
     (if s = [] then mergeText rest
      else (case mergeText rest of
              Text t # rest' \<Rightarrow> Text (s @ t) # rest'
            | rest' \<Rightarrow> Text s # rest'))"
| "mergeText (n # rest) = n # mergeText rest"

fun normalizeNode :: "node \<Rightarrow> node" where
  "normalizeNode (Element n as cs) = Element n as (mergeText (map normalizeNode cs))"
| "normalizeNode (Document cs) = Document (mergeText (map normalizeNode cs))"
| "normalizeNode n = n"

text \<open>
  The same re-segmentation on message contents: adjacent text runs joined, empty ones
  dropped, placeholders untouched. \<open>placeholders\<close> is the sequence of placeholder
  payloads of a message, \<open>renderedText\<close> the concatenation of everything it renders.
\<close>

fun resegment :: "content list \<Rightarrow> content list" where
  "resegment [] = []"
| "resegment (Str s # rest) =
     (if s = [] then resegment rest
      else (case resegment rest of
              Str t # rest' \<Rightarrow> Str (s @ t) # rest'
            | rest' \<Rightarrow> Str s # rest'))"
| "resegment (c # rest) = c # resegment rest"

fun placeholders :: "content list \<Rightarrow> string list" where
  "placeholders [] = []"
| "placeholders (Str s # rest) = placeholders rest"
| "placeholders (Placeholder u # rest) = u # placeholders rest"

fun renderedText :: "content list \<Rightarrow> string" where
  "renderedText [] = []"
| "renderedText (Str s # rest) = s @ renderedText rest"
| "renderedText (Placeholder u # rest) = u @ renderedText rest"

text \<open>
  The messages a round trip is expected to give. XLB: one per source message. XLIFF: one
  per source message that has a translation, under the source message's name and with the
  translation's contents.
\<close>

definition xlbExpected :: "(content list \<Rightarrow> content list) \<Rightarrow> 'a ProgramMessage_scheme list \<Rightarrow> Message list" where
  "xlbExpected seg sourceMessages =
     map (\<lambda>m. \<lparr>name = name m, contents = seg (contents m)\<rparr>) sourceMessages"

definition xliffExpected ::
  "(content list \<Rightarrow> content list) \<Rightarrow> (string \<rightharpoonup> 'b Message_scheme) \<Rightarrow>
   'a ProgramMessage_scheme list \<Rightarrow> Message list" where
  "xliffExpected seg translationsByName sourceMessages =
     List.map_filter
       (\<lambda>m. case translationsByName (name m) of
              Some translation \<Rightarrow> Some \<lparr>name = name m, contents = seg (contents translation)\<rparr>
            | None \<Rightarrow> None)
       sourceMessages"

definition reseg :: "Message \<Rightarrow> Message" where
  "reseg m = \<lparr>name = name m, contents = resegment (contents m)\<rparr>"

text \<open>The message of the specification's scenario and its Spanish translation.\<close>

definition greeting :: ProgramMessage where
  "greeting = \<lparr>name = ''greeting'',
     contents = [Str ''Hello '', Placeholder ''<b>'', Str ''World'', Str ''!'', Placeholder ''</b>''],
     descStack = [''home'', ''title'']\<rparr>"

definition saludo :: Message where
  "saludo = \<lparr>name = ''greeting'',
     contents = [Str ''Hola '', Placeholder ''<b>'', Str ''Mundo'', Placeholder ''</b>'']\<rparr>"

section \<open>The whitespace of a document\<close>

text \<open>
  The places of a document where pretty-printing inserts whitespace: before the opening
  tag of an element, before the closing tag of an element, and at the end of the
  document, after the root.
\<close>

datatype place = Opening string | Closing string | EndOfDocument

text \<open>
  The elements that hold the text of a message: their children are content, not
  whitespace between elements.
\<close>

definition holdsMessageText :: "string \<Rightarrow> bool" where
  "holdsMessageText n = (n \<in> set [''msg'', ''note'', ''source'', ''target''])"

text \<open>
  For a list of sibling nodes that stand at nesting level \<open>level\<close> (the number of elements
  around them), and for the subtrees of the elements among them: every place, the level
  of the tag that stands there, and the text that stands immediately before it (adjacent
  text nodes together; empty if there is none). \<open>closing\<close> is the place that follows the
  last sibling, with its level: the closing tag of the parent, or the end of the
  document. \<open>prev\<close> carries the text of the preceding siblings.
\<close>

fun layout ::
  "place \<times> nat \<Rightarrow> nat \<Rightarrow> string \<Rightarrow> node list \<Rightarrow> (place \<times> nat \<times> string) list" where
  "layout closing level prev [] = [(fst closing, snd closing, prev)]"
| "layout closing level prev (Text s # rest) = layout closing level (prev @ s) rest"
| "layout closing level prev (Element n as cs # rest) =
     (Opening n, level, prev) #
     (if holdsMessageText n then [] else layout (Closing n, level) (Suc level) [] cs) @
     layout closing level [] rest"
| "layout closing level prev (x # rest) = layout closing level [] rest"

definition layoutRows :: "node \<Rightarrow> (place \<times> nat \<times> string) list" where
  "layoutRows doc = layout (EndOfDocument, 0) 0 [] (childNodes doc)"

text \<open>
  The convention of the specification: at every place stands one newline and two spaces
  per nesting level, and nothing else. A closing tag has the level of its opening tag;
  the end of the document has level 0.
\<close>

definition indentedByLevel :: "node \<Rightarrow> bool" where
  "indentedByLevel doc =
     (\<forall>(p, level, w) \<in> set (layoutRows doc). Text w = indent level)"

text \<open>
  What a writer reads of a source message: \<^verbatim>\<open>{name, contents, descStack}\<close>.
\<close>

definition fieldsRead :: "'a ProgramMessage_scheme \<Rightarrow> string \<times> content list \<times> string list" where
  "fieldsRead m = (name m, contents m, descStack m)"

text \<open>
  The whitespace inside one XLIFF \<^verbatim>\<open>trans-unit\<close>, which stands at nesting level 3 and whose
  children stand at level 4: a newline and two spaces before each child, a bare newline
  before the closing tag.
\<close>

definition xliffUnitRows ::
  "(string \<rightharpoonup> 'b Message_scheme) \<Rightarrow> 'a ProgramMessage_scheme \<Rightarrow> (place \<times> nat \<times> string) list"
  where
  "xliffUnitRows translationsByName m =
     (if descStack m \<noteq> [] then [(Opening ''note'', 4, CHR 0x0A # ''  '')] else []) @
     [(Opening ''source'', 4, CHR 0x0A # ''  '')] @
     (case translationsByName (name m) of
        Some translation \<Rightarrow> [(Opening ''target'', 4, CHR 0x0A # ''  '')]
      | None \<Rightarrow> []) @
     [(Closing ''trans-unit'', 3, [CHR 0x0A])]"

section \<open>The transform engine: building the translation lookup\<close>

text \<open>
  The loop of \<^verbatim>\<open>transformOutput\<close> that fills \<^verbatim>\<open>translations\<close>: a \<^verbatim>\<open>Map\<close> that starts empty
  and receives \<^verbatim>\<open>translations.set(message.name, message)\<close> for each message in order.
\<close>

fun setAll :: "(string \<rightharpoonup> Message) \<Rightarrow> Message list \<Rightarrow> (string \<rightharpoonup> Message)" where
  "setAll translations [] = translations"
| "setAll translations (message # rest) = setAll (translations(name message \<mapsto> message)) rest"

text \<open>
  The lookup handed to \<^verbatim>\<open>litLocalizeTransform\<close> for one locale of
  \<^verbatim>\<open>[config.sourceLocale, ...config.targetLocales]\<close>: \<open>None\<close> (\<^verbatim>\<open>undefined\<close>) for the source
  locale, else the map built from \<^verbatim>\<open>translationsByLocale.get(locale) || []\<close>.
\<close>

definition translationsFor ::
  "Config \<Rightarrow> (string \<rightharpoonup> Message list) \<Rightarrow> string \<Rightarrow> (string \<rightharpoonup> Message) option" where
  "translationsFor config translationsByLocale loc =
     (if loc \<noteq> sourceLocale config
      then Some (setAll Map.empty (case translationsByLocale loc of Some ms \<Rightarrow> ms | None \<Rightarrow> []))
      else None)"

section \<open>The transform engine: the syntax tree\<close>

text \<open>
  The expression nodes the transformer tells apart. What the TypeScript type checker and
  the absent \<^verbatim>\<open>program-analysis.ts\<close> answer about a node is part of the node:
  \<^item> \<open>TemplateLiteral head spans\<close> is an untagged template literal, each span an expression
    and the literal text after it; with no span it is a \<^verbatim>\<open>NoSubstitutionTemplateLiteral\<close>,
    otherwise a \<^verbatim>\<open>TemplateExpression\<close>;
  \<^item> \<open>LitTemplate head spans\<close> is a node for which \<^verbatim>\<open>isLitTemplate\<close> holds (an
    \<^verbatim>\<open>html\<close>-tagged template), with the head and spans of its \<^verbatim>\<open>template\<close>;
  \<^item> \<open>MsgCall\<close> is a node for which \<^verbatim>\<open>isMsgCall\<close> holds, with what \<^verbatim>\<open>extractTemplate\<close>
    and \<^verbatim>\<open>extractOptions\<close> return for its two arguments: whether the template argument
    is an arrow function, the error of \<^verbatim>\<open>extractTemplate\<close> if any, \<^verbatim>\<open>isLitTemplate\<close>,
    \<^verbatim>\<open>params\<close>, \<^verbatim>\<open>template\<close>, the error of \<^verbatim>\<open>extractOptions\<close> if any, \<^verbatim>\<open>id\<close> and \<^verbatim>\<open>args\<close>;
  \<^item> \<open>CallExpression props callee args\<close> is any other call, \<open>props\<close> being the names of
    the properties of the type of its callee (what \<^verbatim>\<open>typeHasProperty\<close> searches);
  \<^item> \<open>LocaleStatusEvent\<close> is a node whose symbol is \<^verbatim>\<open>LOCALE_STATUS_EVENT\<close>, declared in
    the lit-localize module;
  \<^item> \<open>Node kind children\<close> is any other node.
\<close>

datatype expr =
    StringLiteral string
  | TemplateLiteral string "(expr \<times> string) list"
  | LitTemplate string "(expr \<times> string) list"
  | MsgCall bool "string option" bool "string list option" expr
            "string option" "string option" "expr list option"
  | CallExpression "string list" expr "expr list"
  | LocaleStatusEvent
  | Identifier string
  | Node string "expr list"

datatype statement = ExpressionStatement expr | OtherStatement

text \<open>\<^verbatim>\<open>Array<string | ts.Expression>\<close>, the fragments of a flattened template.\<close>

datatype fragment = FText string | FExpr expr

text \<open>
  The fields of the \<^verbatim>\<open>Transformer\<close> class (\<open>msgTranslations\<close> is its \<^verbatim>\<open>translations\<close>,
  \<open>localeCode\<close> its \<^verbatim>\<open>locale\<close>), and with them the functions the transformer
  calls that are not among the sources: \<open>createSourceFile\<close> is TypeScript's parser (the
  statements of the file it returns), \<open>escapeString\<close> is
  \<^verbatim>\<open>escapeStringToEmbedInTemplateLiteral\<close>, \<open>generateMsgId\<close> is \<^verbatim>\<open>generateMsgIdFromAstNode\<close>.
\<close>

record Transformer =
  msgTranslations :: "(string \<rightharpoonup> Message) option"
  localeCode :: string
  sourceFile :: string
  createSourceFile :: "string \<Rightarrow> statement list"
  escapeString :: "string \<Rightarrow> string"
  generateMsgId :: "expr \<Rightarrow> bool \<Rightarrow> string"

text \<open>
  A call of the transformer returns a node, throws, or (in the model only) runs out of
  fuel: the recursion follows the tree but also enters the templates parsed from
  translations and the results of its own visits.
\<close>

datatype 'a outcome = OutOfFuel | Throw error | Return 'a

fun bind :: "'a outcome \<Rightarrow> ('a \<Rightarrow> 'b outcome) \<Rightarrow> 'b outcome" where
  "bind OutOfFuel f = OutOfFuel"
| "bind (Throw e) f = Throw e"
| "bind (Return x) f = f x"

fun mapOutcome :: "('a \<Rightarrow> 'b outcome) \<Rightarrow> 'a list \<Rightarrow> 'b list outcome" where
  "mapOutcome f [] = Return []"
| "mapOutcome f (x # xs) = bind (f x) (\<lambda>y. bind (mapOutcome f xs) (\<lambda>ys. Return (y # ys)))"

fun ofSum :: "error + 'a \<Rightarrow> 'a outcome" where
  "ofSum (Inl e) = Throw e"
| "ofSum (Inr x) = Return x"

lemma bind_cong [fundef_cong]:
  "m = m' \<Longrightarrow> (\<And>x. m' = Return x \<Longrightarrow> f x = g x) \<Longrightarrow> bind m f = bind m' g"
  by (cases m') auto

lemma mapOutcome_cong [fundef_cong]:
  "xs = ys \<Longrightarrow> (\<And>x. x \<in> set ys \<Longrightarrow> f x = g x) \<Longrightarrow> mapOutcome f xs = mapOutcome g ys"
  by (induction ys arbitrary: xs) (auto intro: bind_cong)

subsection \<open>Helpers of \<^verbatim>\<open>transform.ts\<close>\<close>

fun tagLit :: "expr \<Rightarrow> expr" where
  "tagLit (TemplateLiteral head spans) = LitTemplate head spans"
| "tagLit e = Node ''TaggedTemplateExpression'' [Identifier ''html'', e]"

text \<open>
  \<^verbatim>\<open>makeTemplateLiteral\<close>: the loop runs over the fragments from the last to the first;
  \<open>collect\<close> returns the text buffer and the spans it has after the fragments given.
\<close>

fun collect :: "fragment list \<Rightarrow> string \<times> (expr \<times> string) list" where
  "collect [] = ([], [])"
| "collect (FText s # rest) = (case collect rest of (textBuf, spans) \<Rightarrow> (s @ textBuf, spans))"
| "collect (FExpr e # rest) = (case collect rest of (textBuf, spans) \<Rightarrow> ([], (e, textBuf) # spans))"

definition makeTemplateLiteral :: "fragment list \<Rightarrow> expr" where
  "makeTemplateLiteral fragments =
     (case collect fragments of (textBuf, spans) \<Rightarrow> TemplateLiteral textBuf spans)"

definition parseStringAsTemplateLiteral :: "'a Transformer_scheme \<Rightarrow> string \<Rightarrow> error + expr" where
  "parseStringAsTemplateLiteral t templateLiteralBody =
     (case createSourceFile t (''`'' @ templateLiteralBody @ ''`'') of
        [stmt] \<Rightarrow>
          (case stmt of
             ExpressionStatement expression \<Rightarrow>
               (case expression of
                  TemplateLiteral head spans \<Rightarrow> Inr expression
                | _ \<Rightarrow> Inl (KnownError ''Internal error: expected template literal expression''))
           | OtherStatement \<Rightarrow> Inl (KnownError ''Internal error: expected expression statement''))
      | _ \<Rightarrow> Inl (KnownError ''Internal error: expected 1 statement''))"

text \<open>
  The body of the template literal that replaces a translated message:
  \<^verbatim>\<open>translation.contents.map(...).join('')\<close>.
\<close>

fun contentText :: "'a Transformer_scheme \<Rightarrow> content \<Rightarrow> string" where
  "contentText t (Str s) = escapeString t s"
| "contentText t (Placeholder u) = u"

definition templateLiteralBody :: "'a Transformer_scheme \<Rightarrow> content list \<Rightarrow> string" where
  "templateLiteralBody t cs = concat (map (contentText t) cs)"

text \<open>
  \<^verbatim>\<open>paramValues\<close>: \<^verbatim>\<open>paramValues.set(paramNames[i], options.args[i])\<close> for every index of
  \<^verbatim>\<open>paramNames\<close>; an index beyond \<^verbatim>\<open>options.args\<close> stores \<^verbatim>\<open>undefined\<close>, which a later
  \<^verbatim>\<open>get\<close> cannot tell from an absent key.
\<close>

fun setParams :: "(string \<rightharpoonup> expr) \<Rightarrow> string list \<Rightarrow> expr list \<Rightarrow> (string \<rightharpoonup> expr)" where
  "setParams m [] as = m"
| "setParams m (p # ps) [] = setParams (m(p := None)) ps []"
| "setParams m (p # ps) (a # as) = setParams (m(p \<mapsto> a)) ps as"

definition substituteSpan :: "(string \<rightharpoonup> expr) \<Rightarrow> expr \<times> string \<Rightarrow> error + (expr \<times> string)" where
  "substituteSpan paramValues span =
     (case fst span of
        Identifier ident \<Rightarrow>
          (case paramValues ident of
             None \<Rightarrow> Inl (KnownError ''No value provided'')
           | Some v \<Rightarrow> Inr (v, snd span))
      | _ \<Rightarrow> Inl (KnownError ''Expected expression to be identifier''))"

definition substituteIdentsInExpressions ::
  "string \<Rightarrow> (expr \<times> string) list \<Rightarrow> (string \<rightharpoonup> expr) \<Rightarrow> error + expr" where
  "substituteIdentsInExpressions head spans paramValues =
     (case traverse (substituteSpan paramValues) spans of
        Inl e \<Rightarrow> Inl e
      | Inr spans' \<Rightarrow> Inr (TemplateLiteral head spans'))"

text \<open>
  The first part of \<^verbatim>\<open>replaceMsgCall\<close>, up to the template that is flattened: the
  translation if there is one for the identifier, then the arguments put in place of the
  parameters.
\<close>

definition effectiveId :: "'a Transformer_scheme \<Rightarrow> expr \<Rightarrow> bool \<Rightarrow> string option \<Rightarrow> string" where
  "effectiveId t template isLitTagged optionsId =
     (case optionsId of Some i \<Rightarrow> i | None \<Rightarrow> generateMsgId t template isLitTagged)"

definition translatedTemplate :: "'a Transformer_scheme \<Rightarrow> string \<Rightarrow> expr \<Rightarrow> error + expr" where
  "translatedTemplate t ident template =
     (case msgTranslations t of
        None \<Rightarrow> Inr template
      | Some tr \<Rightarrow>
          (case tr ident of
             None \<Rightarrow> Inr template
           | Some translation \<Rightarrow>
               parseStringAsTemplateLiteral t (templateLiteralBody t (contents translation))))"

definition substitutedTemplate ::
  "bool \<Rightarrow> string list option \<Rightarrow> expr list option \<Rightarrow> expr \<Rightarrow> error + expr" where
  "substitutedTemplate isArrow paramNames args template =
     (case template of
        TemplateLiteral head spans \<Rightarrow>
          if isArrow \<and> spans \<noteq> [] then
            (case (paramNames, args) of
               (Some ps, Some as) \<Rightarrow>
                 substituteIdentsInExpressions head spans (setParams Map.empty ps as)
             | _ \<Rightarrow> Inl (KnownError
                   ''Internal error, expected paramNames and options.args to be defined''))
          else Inr template
      | _ \<Rightarrow> Inr template)"

subsection \<open>The visitor\<close>

definition configureLocalizationError :: error where
  "configureLocalizationError =
     KnownError (''Cannot use configureLocalization in transform mode. '' @
                 ''Use configureTransformLocalization instead.'')"

definition getLocaleObject :: "string \<Rightarrow> expr" where
  "getLocaleObject loc =
     Node ''ObjectLiteralExpression''
       [Node ''PropertyAssignment''
          [Identifier ''getLocale'', Node ''ArrowFunction'' [StringLiteral loc]]]"

text \<open>
  The body of the loop of \<^verbatim>\<open>recursivelyFlattenTemplate\<close> over \<^verbatim>\<open>template.templateSpans\<close>:
  what one iteration pushes, given \<^verbatim>\<open>subsume\<close> and the bound \<^verbatim>\<open>visitNode\<close>.
\<close>

definition flattenSpan ::
  "(expr \<Rightarrow> fragment list option outcome) \<Rightarrow> (expr \<Rightarrow> expr outcome) \<Rightarrow>
   expr \<times> string \<Rightarrow> fragment list outcome" where
  "flattenSpan subsumeFn visit span =
     bind (subsumeFn (fst span)) (\<lambda>direct.
     (case direct of
        Some fs \<Rightarrow> Return (fs @ [FText (snd span)])
      | None \<Rightarrow>
          bind (visit (fst span)) (\<lambda>expression.
          bind (subsumeFn expression) (\<lambda>after.
          (case after of
             Some fs \<Rightarrow> Return (fs @ [FText (snd span)])
           | None \<Rightarrow> Return [FExpr expression, FText (snd span)])))))"

text \<open>
  \<^verbatim>\<open>visitNode\<close>, \<^verbatim>\<open>replaceMsgCall\<close>, \<^verbatim>\<open>recursivelyFlattenTemplate\<close> and its local function
  \<^verbatim>\<open>subsume\<close>. \<open>subsume\<close> returns the fragments it pushes, \<open>None\<close> where the source
  returns \<^verbatim>\<open>false\<close>. A template handed to \<^verbatim>\<open>recursivelyFlattenTemplate\<close> that is no
  template literal is outside its parameter type; the model lets it throw.
\<close>

function visitNode :: "nat \<Rightarrow> 'a Transformer_scheme \<Rightarrow> expr \<Rightarrow> expr outcome"
and replaceMsgCall ::
  "nat \<Rightarrow> 'a Transformer_scheme \<Rightarrow> bool \<Rightarrow> string option \<Rightarrow> bool \<Rightarrow> string list option \<Rightarrow> expr \<Rightarrow>
   string option \<Rightarrow> string option \<Rightarrow> expr list option \<Rightarrow> expr outcome"
and recursivelyFlattenTemplate ::
  "nat \<Rightarrow> 'a Transformer_scheme \<Rightarrow> expr \<Rightarrow> bool \<Rightarrow> fragment list outcome"
and subsume :: "nat \<Rightarrow> 'a Transformer_scheme \<Rightarrow> bool \<Rightarrow> expr \<Rightarrow> fragment list option outcome"
where
  "visitNode 0 t node = OutOfFuel"
| "visitNode (Suc n) t node =
     (case node of
        MsgCall isArrow templateError isLitTagged paramNames template optionsError optionsId args \<Rightarrow>
          replaceMsgCall n t isArrow templateError isLitTagged paramNames template
            optionsError optionsId args
      | LitTemplate head spans \<Rightarrow>
          bind (recursivelyFlattenTemplate n t (TemplateLiteral head spans) True)
            (\<lambda>fragments. Return (tagLit (makeTemplateLiteral fragments)))
      | CallExpression props callee args \<Rightarrow>
          if ''_LIT_LOCALIZE_CONFIGURE_TRANSFORM_LOCALIZATION_'' \<in> set props
          then Return (getLocaleObject (localeCode t))
          else if ''_LIT_LOCALIZE_CONFIGURE_LOCALIZATION_'' \<in> set props
          then Throw configureLocalizationError
          else if ''_LIT_LOCALIZE_LOCALIZED_'' \<in> set props
          then (case args of
                  [arg] \<Rightarrow> Return arg
                | _ \<Rightarrow> Throw (KnownError
                         (''Expected Localized mixin call to have one argument, got '' @
                          string_of_nat (length args))))
          else bind (visitNode n t callee) (\<lambda>callee'.
               bind (mapOutcome (visitNode n t) args) (\<lambda>args'.
               Return (CallExpression props callee' args')))
      | LocaleStatusEvent \<Rightarrow> Return (StringLiteral ''lit-localize-status'')
      | StringLiteral s \<Rightarrow> Return (StringLiteral s)
      | Identifier x \<Rightarrow> Return (Identifier x)
      | TemplateLiteral head spans \<Rightarrow>
          bind (mapOutcome (\<lambda>span. bind (visitNode n t (fst span)) (\<lambda>e. Return (e, snd span)))
                  spans)
            (\<lambda>spans'. Return (TemplateLiteral head spans'))
      | Node kind children \<Rightarrow>
          bind (mapOutcome (visitNode n t) children) (\<lambda>children'. Return (Node kind children')))"
| "replaceMsgCall 0 t isArrow templateError isLitTagged paramNames template
                  optionsError optionsId args = OutOfFuel"
| "replaceMsgCall (Suc n) t isArrow templateError isLitTagged paramNames template
                  optionsError optionsId args =
     (case templateError of
        Some e \<Rightarrow> Throw (Error e)
      | None \<Rightarrow>
     (case optionsError of
        Some e \<Rightarrow> Throw (Error e)
      | None \<Rightarrow>
     bind (ofSum (translatedTemplate t (effectiveId t template isLitTagged optionsId) template))
       (\<lambda>template1.
     bind (ofSum (substitutedTemplate isArrow paramNames args template1))
       (\<lambda>template2.
     (case template2 of
        StringLiteral s \<Rightarrow>
          if isLitTagged
          then Throw (KnownError ''Internal error: string literal cannot be html-tagged'')
          else Return template2
      | _ \<Rightarrow>
          bind (recursivelyFlattenTemplate n t template2 isLitTagged)
            (\<lambda>fragments.
               Return (if isLitTagged then tagLit (makeTemplateLiteral fragments)
                       else makeTemplateLiteral fragments)))))))"
| "recursivelyFlattenTemplate 0 t template isLit = OutOfFuel"
| "recursivelyFlattenTemplate (Suc n) t template isLit =
     (case template of
        TemplateLiteral head spans \<Rightarrow>
          if spans = [] then Return [FText head]
          else bind (mapOutcome (flattenSpan (subsume n t isLit) (visitNode n t)) spans)
                 (\<lambda>pushed. Return (FText head # concat pushed))
      | _ \<Rightarrow> Throw (Error ''TypeError: template is not a template literal''))"
| "subsume 0 t isLit expression = OutOfFuel"
| "subsume (Suc n) t isLit expression =
     (case expression of
        StringLiteral s \<Rightarrow> Return (Some [FText s])
      | TemplateLiteral head spans \<Rightarrow>
          bind (recursivelyFlattenTemplate n t (TemplateLiteral head spans) False)
            (\<lambda>fs. Return (Some fs))
      | LitTemplate head spans \<Rightarrow>
          if isLit
          then bind (recursivelyFlattenTemplate n t (TemplateLiteral head spans) True)
                 (\<lambda>fs. Return (Some fs))
          else Return None
      | _ \<Rightarrow> Return None)"
  by pat_completeness auto
termination
  by (relation "measure (\<lambda>x. case x of
                   Inl (Inl a) \<Rightarrow> fst a
                 | Inl (Inr b) \<Rightarrow> fst b
                 | Inr (Inl c) \<Rightarrow> fst c
                 | Inr (Inr d) \<Rightarrow> fst d)") auto

declare visitNode.simps [simp del] replaceMsgCall.simps [simp del]
  recursivelyFlattenTemplate.simps [simp del] subsume.simps [simp del]

text \<open>A transformer for the examples: the source-locale pass over \<^verbatim>\<open>src/app.ts\<close>.\<close>

definition demoTransformer :: Transformer where
  "demoTransformer =
     \<lparr>msgTranslations = None, localeCode = ''es'', sourceFile = ''src/app.ts'',
      createSourceFile = (\<lambda>text. []), escapeString = (\<lambda>s. s),
      generateMsgId = (\<lambda>template isLitTagged. ''generated'')\<rparr>"

section \<open>Templates that flattening leaves alone, and the identifiers in a tree\<close>













section \<open>Facts about the loops\<close>

lemma traverse_Inr_iff:
  "traverse f xs = Inr ys \<longleftrightarrow> list_all2 (\<lambda>x y. f x = Inr y) xs ys"
proof (induction xs arbitrary: ys)
  case Nil
  then show ?case by auto
next
  case (Cons x xs)
  show ?case
  proof (cases "f x")
    case (Inl e)
    then show ?thesis by (cases ys) auto
  next
    case fx: (Inr y)
    show ?thesis
    proof (cases "traverse f xs")
      case (Inl e)
      with fx Cons.IH show ?thesis by (cases ys) auto
    next
      case (Inr zs)
      have iff: "list_all2 (\<lambda>x y. f x = Inr y) xs us \<longleftrightarrow> zs = us" for us
        using Cons.IH [of us] Inr by simp
      show ?thesis using fx Inr iff by (cases ys) auto
    qed
  qed
qed

lemma traverse_Inl_iff:
  "(\<exists>e. traverse f xs = Inl e) \<longleftrightarrow> (\<exists>x \<in> set xs. \<exists>e. f x = Inl e)"
  by (induction xs) (auto split: sum.splits)

lemma isText_iff: "isText n \<longleftrightarrow> nodeType n = TEXT_NODE"
  by (cases n) (simp_all add: TEXT_NODE_def)

lemma isElementNamed_iff: "isElementNamed tag n \<longleftrightarrow> nodeType n = ELEMENT_NODE \<and> nodeName n = tag"
  by (cases n) (simp_all add: ELEMENT_NODE_def)

lemma isText_ex: "isText n \<longleftrightarrow> (\<exists>s. n = Text s)"
  by (cases n) simp_all

lemma hasOneTextChild_iff: "hasOneTextChild n \<longleftrightarrow> (\<exists>s. childNodes n = [Text s])"
  by (auto simp: hasOneTextChild_def isText_ex split: list.splits)

lemma parseChild_accepted:
  assumes "acceptedChild child"
  shows "parseChild unit child = Inr (contentOf child)"
proof (cases "isText child")
  case True
  then show ?thesis by (auto simp: isText_ex parseChild_def TEXT_NODE_def)
next
  case False
  with assms have ph: "isElementNamed ''ph'' child" and one: "hasOneTextChild child"
    by (auto simp: acceptedChild_def)
  from one obtain s where s: "childNodes child = [Text s]"
    by (auto simp: hasOneTextChild_iff)
  from ph obtain as cs where c: "child = Element ''ph'' as cs" by (cases child) auto
  with s show ?thesis
    by (simp add: parseChild_def TEXT_NODE_def ELEMENT_NODE_def)
qed

lemma parseChild_ph_error:
  assumes "isElementNamed ''ph'' child" and "\<not> hasOneTextChild child"
  shows "parseChild unit child = Inl ph_error"
proof -
  from assms(1) have ty: "nodeType child \<noteq> TEXT_NODE" "nodeType child = ELEMENT_NODE" "nodeName child = ''ph''"
    by (cases child; simp add: TEXT_NODE_def ELEMENT_NODE_def)+
  show ?thesis
  proof (cases "childNodes child")
    case Nil
    with ty show ?thesis by (simp add: parseChild_def)
  next
    case (Cons t ts)
    show ?thesis
    proof (cases ts)
      case Nil
      with Cons assms(2) have "\<not> isText t" by (simp add: hasOneTextChild_def)
      then have "nodeType t \<noteq> TEXT_NODE" by (simp add: isText_iff)
      with ty Cons Nil show ?thesis by (simp add: parseChild_def)
    next
      case (Cons u us)
      with \<open>childNodes child = t # ts\<close> ty show ?thesis by (simp add: parseChild_def)
    qed
  qed
qed

lemma parseChild_unexpected:
  "\<not> isText child \<Longrightarrow> \<not> isElementNamed ''ph'' child \<Longrightarrow> parseChild unit child = Inl (unexpected_node unit child)"
  unfolding parseChild_def
  by (auto simp: isText_iff isElementNamed_iff)

lemma parseChild_Inr_iff: "(\<exists>c. parseChild unit child = Inr c) \<longleftrightarrow> acceptedChild child"
proof
  assume h: "\<exists>c. parseChild unit child = Inr c"
  show "acceptedChild child"
  proof (rule ccontr)
    assume n: "\<not> acceptedChild child"
    then have "parseChild unit child = Inl ph_error \<or> parseChild unit child = Inl (unexpected_node unit child)"
      using parseChild_ph_error [of child unit] parseChild_unexpected [of child unit]
      by (auto simp: acceptedChild_def)
    with h show False by auto
  qed
next
  assume "acceptedChild child"
  then show "\<exists>c. parseChild unit child = Inr c" by (simp add: parseChild_accepted)
qed

lemma traverse_all_Inr:
  "(\<And>x. x \<in> set xs \<Longrightarrow> f x = Inr (g x)) \<Longrightarrow> traverse f xs = Inr (map g xs)"
  by (induction xs) auto

lemma traverse_first_Inl:
  "(\<And>x. x \<in> set pre \<Longrightarrow> \<exists>y. f x = Inr y) \<Longrightarrow> f x = Inl e \<Longrightarrow> traverse f (pre @ x # post) = Inl e"
proof (induction pre)
  case Nil
  then show ?case by simp
next
  case (Cons a pre)
  from Cons.prems(1) [of a] obtain y where "f a = Inr y" by auto
  moreover have "traverse f (pre @ x # post) = Inl e" using Cons by simp
  ultimately show ?case by simp
qed

lemma traverse_Inr_D:
  "traverse f xs = Inr ys \<Longrightarrow> x \<in> set xs \<Longrightarrow> \<exists>y \<in> set ys. f x = Inr y"
  by (auto simp: traverse_Inr_iff list_all2_conv_all_nth in_set_conv_nth)

lemma traverse_Inr_length: "traverse f xs = Inr ys \<Longrightarrow> length ys = length xs"
  by (auto simp: traverse_Inr_iff dest: list_all2_lengthD)

lemma parseContents_Inr_iff:
  "parseContents unit children = Inr cs \<longleftrightarrow>
     (\<forall>child \<in> set children. acceptedChild child) \<and> cs = map contentOf children"
proof
  assume h: "parseContents unit children = Inr cs"
  have a: "\<forall>child \<in> set children. acceptedChild child"
    using traverse_Inr_D [OF h [unfolded parseContents_def]] parseChild_Inr_iff by blast
  then have "parseContents unit children = Inr (map contentOf children)"
    unfolding parseContents_def by (intro traverse_all_Inr) (simp add: parseChild_accepted)
  with h a show "(\<forall>child \<in> set children. acceptedChild child) \<and> cs = map contentOf children" by simp
next
  assume "(\<forall>child \<in> set children. acceptedChild child) \<and> cs = map contentOf children"
  then show "parseContents unit children = Inr cs"
    unfolding parseContents_def using traverse_all_Inr [of children "parseChild unit" contentOf]
    by (simp add: parseChild_accepted)
qed

lemma below_Element: "below e (Element n as cs) \<longleftrightarrow> (\<exists>c \<in> set cs. e = c \<or> below e c)"
  by (subst below.simps) auto

lemma below_Document: "below e (Document cs) \<longleftrightarrow> (\<exists>c \<in> set cs. e = c \<or> below e c)"
  by (subst below.simps) auto

lemma below_leaf:
  "\<not> below e (Text s)" "\<not> below e (CDataSection s)" "\<not> below e (Comment s)"
  "\<not> below e (ProcessingInstruction t d)"
  by (auto elim: below.cases)

lemma subtreeElements_set:
  "set (subtreeElements tag n) = {e. (e = n \<or> below e n) \<and> isElementNamed tag e}"
proof (induction n)
  case (Element n as cs)
  then show ?case by (auto simp: below_Element)
next
  case (Document cs)
  then show ?case by (auto simp: below_Document)
qed (auto simp: below_leaf)

lemma getElementsByTagName_set:
  "set (getElementsByTagName n tag) = {e. below e n \<and> isElementNamed tag e}"
  by (cases n) (auto simp: getElementsByTagName_def subtreeElements_set below_Element below_Document below_leaf)


lemma map_filter_id_set: "set (List.map_filter id xs) = {x. Some x \<in> set xs}"
  by (force simp: List.map_filter_def image_iff)

lemma getNonEmptyAttribute_Element:
  "getNonEmptyAttributeOrThrow (Element n as cs) a = Inr v \<Longrightarrow> map_of as a = Some v"
  by (auto simp: getNonEmptyAttributeOrThrow_def split: option.splits if_splits)

lemma getOneElement_Inr:
  "getOneElementByTagNameOrThrow n tag = Inr e \<longleftrightarrow> getElementsByTagName n tag = [e]"
  by (auto simp: getOneElementByTagNameOrThrow_def split: list.splits)

lemma parseMsg_Element:
  "parseMsg (Element n as cs) = Inr msg \<Longrightarrow>
     \<exists>nm cts. map_of as ''name'' = Some nm \<and> parseContents ''msg'' cs = Inr cts \<and>
       msg = \<lparr>name = nm, contents = cts\<rparr>"
  by (auto simp: parseMsg_def split: sum.splits dest: getNonEmptyAttribute_Element)

lemma parseXmb_msgs:
  assumes "parseXmb doc = Inr b"
  shows "traverse parseMsg (getElementsByTagName doc ''msg'') = Inr (messages b)"
  using assms by (auto simp: parseXmb_def split: sum.splits)

lemma parseXlif_units:
  assumes "parseXlif doc = Inr b"
  shows "\<exists>file ms. getElementsByTagName doc ''file'' = [file] \<and>
           traverse parseTransUnit (getElementsByTagName file ''trans-unit'') = Inr ms \<and>
           messages b = List.map_filter id ms"
  using assms by (auto simp: parseXlif_def getOneElement_Inr split: sum.splits)

lemma parseTransUnit_target:
  assumes "parseTransUnit (Element n as cs) = Inr r"
    and "tgt \<in> set (getElementsByTagName (Element n as cs) ''target'')"
  shows "\<exists>nm cts. map_of as ''id'' = Some nm \<and>
           parseContents ''trans-unit'' (childNodes tgt) = Inr cts \<and>
           r = Some \<lparr>name = nm, contents = cts\<rparr>"
proof -
  from assms(1) obtain nm where nm: "getNonEmptyAttributeOrThrow (Element n as cs) ''id'' = Inr nm"
    by (auto simp: parseTransUnit_def split: sum.splits)
  show ?thesis
  proof (cases "getElementsByTagName (Element n as cs) ''target''")
    case Nil
    with assms(2) show ?thesis by simp
  next
    case (Cons t ts)
    show ?thesis
    proof (cases ts)
      case Nil
      with Cons assms(2) have "tgt = t" by simp
      with assms(1) nm Cons Nil show ?thesis
        by (auto simp: parseTransUnit_def split: sum.splits dest: getNonEmptyAttribute_Element)
    next
      case (Cons u us)
      with \<open>getElementsByTagName (Element n as cs) ''target'' = t # ts\<close> assms(1) nm show ?thesis
        by (simp add: parseTransUnit_def)
    qed
  qed
qed

section \<open>Facts about reading the files\<close>

lemma readLocale_ENOENT:
  "readFile p (xlfPath p config loc) = Inl (IOError ''ENOENT'') \<Longrightarrow> readLocale p config loc = Inr None"
  by (simp add: readLocale_def)

lemma readLocale_other_error:
  "readFile p (xlfPath p config loc) = Inl err \<Longrightarrow> code err \<noteq> Some ''ENOENT'' \<Longrightarrow>
     readLocale p config loc = Inl err"
  by (simp add: readLocale_def)

lemma readLocale_Inr_None:
  "readLocale p config loc = Inr None \<longleftrightarrow>
     (\<exists>err. readFile p (xlfPath p config loc) = Inl err \<and> code err = Some ''ENOENT'')"
  by (auto simp: readLocale_def split: sum.splits)

lemma readLocale_Inr_Some:
  "readLocale p config loc = Inr (Some b) \<longleftrightarrow>
     (\<exists>xmlStr. readFile p (xlfPath p config loc) = Inr xmlStr \<and>
               parseXlif (parseFromString p xmlStr) = Inr b)"
  by (auto simp: readLocale_def split: sum.splits)

lemma traverse_map_filter:
  "traverse f xs = Inr ys \<Longrightarrow>
   List.map_filter id ys = concat (map (\<lambda>x. case f x of Inr (Some b) \<Rightarrow> [b] | _ \<Rightarrow> []) xs)"
proof (induction xs arbitrary: ys)
  case Nil
  then show ?case by (simp add: List.map_filter_def)
next
  case (Cons x xs)
  then show ?case
    by (auto simp: List.map_filter_def split: sum.splits option.splits)
qed

lemma readLocale_bundlesRead:
  "readLocale p config loc = Inr r \<Longrightarrow>
     (case r of Some b \<Rightarrow> [b] | None \<Rightarrow> []) = bundlesRead p config loc"
  by (auto simp: readLocale_def bundlesRead_def split: sum.splits if_splits)

lemma traverse_Inl_ex:
  "x \<in> set xs \<Longrightarrow> f x = Inl e \<Longrightarrow> \<exists>e'. traverse f xs = Inl e'"
  using traverse_Inl_iff [of f xs] by blast

lemma traverse_Inr_ex:
  assumes "\<And>x. x \<in> set xs \<Longrightarrow> \<exists>r. f x = Inr r"
  shows "\<exists>rs. traverse f xs = Inr rs"
proof (cases "traverse f xs")
  case (Inl e)
  then have "\<exists>x \<in> set xs. \<exists>e. f x = Inl e" using traverse_Inl_iff [of f xs] by simp
  then obtain x e' where "x \<in> set xs" "f x = Inl e'" by auto
  with assms [of x] show ?thesis by simp
next
  case (Inr rs)
  then show ?thesis by simp
qed

lemma readLocale_fails:
  assumes "loc \<in> set (targetLocales config)"
    and "readFile p (xlfPath p config loc) = Inl err" and "code err \<noteq> Some ''ENOENT''"
  shows "\<exists>e. snd (readTranslations p config) = Inl e"
proof -
  from assms(2,3) have "readLocale p config loc = Inl err" by (rule readLocale_other_error)
  with assms(1) obtain e where "traverse (readLocale p config) (targetLocales config) = Inl e"
    using traverse_Inl_ex [of loc "targetLocales config" "readLocale p config" err] by auto
  then show ?thesis by (simp add: readTranslations_def)
qed

lemma readLocale_case_bundlesRead:
  "(case readLocale p config loc of Inr (Some b) \<Rightarrow> [b] | _ \<Rightarrow> []) = bundlesRead p config loc"
proof (cases "readFile p (xlfPath p config loc)")
  case (Inl err)
  then show ?thesis by (simp add: readLocale_def bundlesRead_def)
next
  case (Inr xmlStr)
  then show ?thesis
    by (cases "parseXlif (parseFromString p xmlStr)") (simp_all add: readLocale_def bundlesRead_def)
qed

lemma readTranslations_succeeds:
  assumes "\<And>loc. loc \<in> set (targetLocales config) \<Longrightarrow>
        (\<exists>err. readFile p (xlfPath p config loc) = Inl err \<and> code err = Some ''ENOENT'') \<or>
        (\<exists>xmlStr b. readFile p (xlfPath p config loc) = Inr xmlStr \<and>
                     parseXlif (parseFromString p xmlStr) = Inr b)"
  shows "snd (readTranslations p config) =
        Inr (concat (map (bundlesRead p config) (targetLocales config)))"
proof -
  have "\<exists>r. readLocale p config loc = Inr r" if "loc \<in> set (targetLocales config)" for loc
  proof -
    from assms [OF that] show ?thesis
    proof
      assume "\<exists>err. readFile p (xlfPath p config loc) = Inl err \<and> code err = Some ''ENOENT''"
      then show ?thesis by (auto simp: readLocale_def)
    next
      assume "\<exists>xmlStr b. readFile p (xlfPath p config loc) = Inr xmlStr \<and>
                     parseXlif (parseFromString p xmlStr) = Inr b"
      then show ?thesis by (auto simp: readLocale_def)
    qed
  qed
  then obtain rs where rs: "traverse (readLocale p config) (targetLocales config) = Inr rs"
    using traverse_Inr_ex [of "targetLocales config" "readLocale p config"] by auto
  from traverse_map_filter [OF rs] rs show ?thesis
    by (simp add: readTranslations_def readLocale_case_bundlesRead)
qed

section \<open>Facts about writing and reading back\<close>

lemma subtree_indent [simp]: "subtreeElements tag (indent k) = []"
  by (simp add: indent_def)

lemma subtree_xlbContent: "tag \<noteq> ''ph'' \<Longrightarrow> subtreeElements tag (xlbContent c) = []"
  by (cases c) auto

lemma subtree_xlbContents:
  "tag \<noteq> ''ph'' \<Longrightarrow> concat (map (subtreeElements tag) (map xlbContent cs)) = []"
  by (induction cs) (simp_all add: subtree_xlbContent)

lemma subtree_encodeContents:
  "tag \<noteq> ''ph'' \<Longrightarrow> concat (map (subtreeElements tag) (encodeContentsFrom i cs)) = []"
  by (induction i cs rule: encodeContentsFrom.induct) auto

lemma subtree_xlbMessageNode:
  "tag \<noteq> ''ph'' \<Longrightarrow>
     subtreeElements tag (xlbMessageNode m) = (if tag = ''msg'' then [xlbMessageNode m] else [])"
  by (simp add: xlbMessageNode_def subtree_xlbContent)

lemma xlb_msg_elements:
  "concat (map (subtreeElements ''msg'')
     (concat (map (\<lambda>m. [indent 2, xlbMessageNode m]) ms) @ [indent 1])) = map xlbMessageNode ms"
  by (induction ms) (simp_all add: subtree_xlbMessageNode)

lemma xlb_bundle_elements:
  "concat (map (subtreeElements ''localizationbundle'')
     (concat (map (\<lambda>m. [indent 2, xlbMessageNode m]) ms) @ [indent 1])) = []"
  by (induction ms) (simp_all add: subtree_xlbMessageNode)

lemma parseContents_xlb: "parseContents unit (map xlbContent cs) = Inr cs"
proof (induction cs)
  case Nil
  then show ?case by (simp add: parseContents_def)
next
  case (Cons c cs)
  then show ?case
    by (cases c) (simp_all add: parseContents_def parseChild_def TEXT_NODE_def ELEMENT_NODE_def)
qed

lemma parseContents_encode: "parseContents unit (encodeContentsFrom i cs) = Inr cs"
  by (induction i cs rule: encodeContentsFrom.induct)
     (simp_all add: parseContents_def parseChild_def TEXT_NODE_def ELEMENT_NODE_def)

lemma parseMsg_xlb:
  "name m \<noteq> [] \<Longrightarrow> parseMsg (xlbMessageNode m) = Inr \<lparr>name = name m, contents = contents m\<rparr>"
  by (simp add: parseMsg_def xlbMessageNode_def getNonEmptyAttributeOrThrow_def parseContents_xlb)

lemma traverse_map_Inr:
  "(\<And>x. x \<in> set xs \<Longrightarrow> f (g x) = Inr (h x)) \<Longrightarrow> traverse f (map g xs) = Inr (map h xs)"
  by (induction xs) auto

lemma xlb_roundtrip_exact:
  assumes "src \<noteq> []" and "\<And>m. m \<in> set ms \<Longrightarrow> name m \<noteq> []"
  shows "parseXmb (xlbDocument src ms) =
           Inr \<lparr>bundleLocale = src, messages = xlbExpected (\<lambda>cs. cs) ms\<rparr>"
proof -
  have b: "getElementsByTagName (xlbDocument src ms) ''localizationbundle'' =
        [Element ''localizationbundle'' [(''locale'', src)]
          [indent 1, xlbMessagesNode ms, indent 0]]"
    using xlb_bundle_elements [of ms]
    by (simp add: getElementsByTagName_def xlbDocument_def xmlDeclaration_def xlbMessagesNode_def
          del: concat_eq_Nil_conv)
  have m: "getElementsByTagName (xlbDocument src ms) ''msg'' = map xlbMessageNode ms"
    using xlb_msg_elements [of ms]
    by (simp add: getElementsByTagName_def xlbDocument_def xmlDeclaration_def xlbMessagesNode_def)
  have t: "traverse parseMsg (map xlbMessageNode ms) = Inr (xlbExpected (\<lambda>cs. cs) ms)"
    unfolding xlbExpected_def by (rule traverse_map_Inr) (simp add: parseMsg_xlb assms(2))
  show ?thesis
    using assms(1)
    by (simp add: parseXmb_def getOneElementByTagNameOrThrow_def b m t getNonEmptyAttributeOrThrow_def)
qed


lemma subtree_transUnitNode:
  "subtreeElements ''trans-unit'' (transUnitNode tr m) = [transUnitNode tr m]"
  by (auto simp: transUnitNode_def encodeContents_def subtree_encodeContents split: option.splits)

lemma subtree_file_transUnitNode:
  "subtreeElements ''file'' (transUnitNode tr m) = []"
  by (auto simp: transUnitNode_def encodeContents_def subtree_encodeContents split: option.splits)

lemma targets_transUnitNode:
  "getElementsByTagName (transUnitNode tr m) ''target'' =
     (case tr (name m) of
        Some t \<Rightarrow> [Element ''target'' [] (encodeContents (contents t))]
      | None \<Rightarrow> [])"
  by (simp add: getElementsByTagName_def transUnitNode_def encodeContents_def
        subtree_encodeContents split: option.splits)

lemma xliff_unit_elements:
  "concat (map (subtreeElements ''trans-unit'')
     (concat (map (\<lambda>m. [transUnitNode tr m, indent 0]) ms))) = map (transUnitNode tr) ms"
  by (induction ms) (simp_all add: subtree_transUnitNode)

lemma xliff_file_elements:
  "concat (map (subtreeElements ''file'')
     (concat (map (\<lambda>m. [transUnitNode tr m, indent 0]) ms))) = []"
  by (induction ms) (simp_all add: subtree_file_transUnitNode)

lemma parseTransUnit_encode:
  "name m \<noteq> [] \<Longrightarrow>
   parseTransUnit (transUnitNode tr m) =
     Inr (case tr (name m) of
            Some t \<Rightarrow> Some \<lparr>name = name m, contents = contents t\<rparr>
          | None \<Rightarrow> None)"
  unfolding parseTransUnit_def targets_transUnitNode
  by (simp add: transUnitNode_def getNonEmptyAttributeOrThrow_def encodeContents_def
        parseContents_encode split: option.splits)

lemma map_filter_map: "List.map_filter id (map f xs) = List.map_filter f xs"
  by (induction xs) (simp_all add: List.map_filter_simps split: option.splits)

lemma xliff_roundtrip_exact:
  assumes "tgt \<noteq> []" and "\<And>m. m \<in> set ms \<Longrightarrow> name m \<noteq> []"
  shows "parseXlif (encodeLocale src tr ms tgt) =
           Inr \<lparr>bundleLocale = tgt, messages = xliffExpected (\<lambda>cs. cs) tr ms\<rparr>"
proof -
  let ?file = "Element ''file''
             [(''target-language'', tgt), (''source-language'', src),
              (''original'', ''lit-localize-inputs''), (''datatype'', ''plaintext'')]
             [indent 0,
              Element ''body'' []
                (indent 0 # concat (map (\<lambda>m. [transUnitNode tr m, indent 0]) ms)),
              indent 0]"
  have f: "getElementsByTagName (encodeLocale src tr ms tgt) ''file'' = [?file]"
    using xliff_file_elements [of tr ms]
    by (simp add: getElementsByTagName_def encodeLocale_def xmlDeclaration_def
          del: concat_eq_Nil_conv)
  have u: "getElementsByTagName ?file ''trans-unit'' = map (transUnitNode tr) ms"
    using xliff_unit_elements [of tr ms] by (simp add: getElementsByTagName_def)
  have t: "traverse parseTransUnit (map (transUnitNode tr) ms) =
        Inr (map (\<lambda>m. case tr (name m) of
                         Some t \<Rightarrow> Some \<lparr>name = name m, contents = contents t\<rparr>
                       | None \<Rightarrow> None) ms)"
    by (rule traverse_map_Inr) (simp add: parseTransUnit_encode assms(2))
  show ?thesis
    using assms(1) unfolding parseXlif_def getOneElementByTagNameOrThrow_def f
    by (simp add: u t getNonEmptyAttributeOrThrow_def xliffExpected_def map_filter_map)
qed


lemma subtree_mergeText:
  "concat (map (subtreeElements tag) (mergeText xs)) = concat (map (subtreeElements tag) xs)"
proof (induction xs rule: mergeText.induct)
  case (2 s rest)
  then show ?case by (cases "mergeText rest" rule: mergeText.cases) (auto split: list.splits node.splits)
qed simp_all

lemma subtree_normalize:
  "subtreeElements tag (normalizeNode n) = map normalizeNode (subtreeElements tag n)"
proof (induction n)
  case (Element n as cs)
  have "concat (map (subtreeElements tag) (map normalizeNode cs)) =
        map normalizeNode (concat (map (subtreeElements tag) cs))"
    using Element by (induction cs) simp_all
  then show ?case by (simp add: subtree_mergeText)
next
  case (Document cs)
  have "concat (map (subtreeElements tag) (map normalizeNode cs)) =
        map normalizeNode (concat (map (subtreeElements tag) cs))"
    using Document by (induction cs) simp_all
  then show ?case by (simp add: subtree_mergeText)
qed simp_all

lemma childNodes_normalize: "childNodes (normalizeNode n) = mergeText (map normalizeNode (childNodes n))"
  by (cases n) simp_all

lemma elements_normalize:
  "getElementsByTagName (normalizeNode n) tag = map normalizeNode (getElementsByTagName n tag)"
proof -
  have "concat (map (subtreeElements tag) (map normalizeNode cs)) =
        map normalizeNode (concat (map (subtreeElements tag) cs))" for cs
    by (induction cs) (simp_all add: subtree_normalize)
  then show ?thesis
    by (simp add: getElementsByTagName_def childNodes_normalize subtree_mergeText)
qed

lemma getAttribute_normalize: "getAttribute (normalizeNode n) a = getAttribute n a"
  by (cases n) simp_all

lemma attribute_normalize:
  "getNonEmptyAttributeOrThrow (normalizeNode n) a = getNonEmptyAttributeOrThrow n a"
  by (simp add: getNonEmptyAttributeOrThrow_def getAttribute_normalize)

lemma parseContents_Nil: "parseContents unit [] = Inr []"
  by (simp add: parseContents_def)

lemma parseContents_Cons:
  "parseContents unit (c # cs) =
     (case parseChild unit c of
        Inl e \<Rightarrow> Inl e
      | Inr y \<Rightarrow> (case parseContents unit cs of Inl e \<Rightarrow> Inl e | Inr ys \<Rightarrow> Inr (y # ys)))"
  unfolding parseContents_def by simp

lemma parseChild_Inr_cases:
  assumes "parseChild unit child = Inr x"
  shows "(\<exists>s. child = Text s \<and> x = Str s) \<or>
         (\<exists>as t. child = Element ''ph'' as [Text t] \<and> x = Placeholder t)"
proof -
  from assms have "acceptedChild child" using parseChild_Inr_iff by blast
  with assms have x: "x = contentOf child" by (simp add: parseChild_accepted)
  show ?thesis
  proof (cases "isText child")
    case True
    with x show ?thesis by (auto simp: isText_ex)
  next
    case False
    with \<open>acceptedChild child\<close> have "isElementNamed ''ph'' child" "hasOneTextChild child"
      by (auto simp: acceptedChild_def)
    then obtain as t where "child = Element ''ph'' as [Text t]"
      by (cases child) (auto simp: hasOneTextChild_iff)
    with x show ?thesis by simp
  qed
qed

lemma parseChild_Text: "parseChild unit (Text s) = Inr (Str s)"
  by (simp add: parseChild_def TEXT_NODE_def)

lemma parseChild_ph: "parseChild unit (Element ''ph'' as [Text t]) = Inr (Placeholder t)"
  by (simp add: parseChild_def TEXT_NODE_def ELEMENT_NODE_def)

lemma parseContents_normalize:
  "parseContents unit cs = Inr xs \<Longrightarrow> Placeholder [] \<notin> set xs \<Longrightarrow>
     parseContents unit (mergeText (map normalizeNode cs)) = Inr (resegment xs)"
proof (induction cs arbitrary: xs)
  case Nil
  then show ?case by (simp add: parseContents_Nil)
next
  case (Cons child cs)
  from Cons.prems(1) obtain x xs' where
    c: "parseChild unit child = Inr x" and r: "parseContents unit cs = Inr xs'" and xs: "xs = x # xs'"
    by (auto simp: parseContents_Cons split: sum.splits)
  from Cons.prems(2) xs have "Placeholder [] \<notin> set xs'" by simp
  with Cons.IH [OF r] have ih: "parseContents unit (mergeText (map normalizeNode cs)) = Inr (resegment xs')" .
  from parseChild_Inr_cases [OF c] show ?case
  proof
    assume "\<exists>s. child = Text s \<and> x = Str s"
    then obtain s where s: "child = Text s" "x = Str s" by auto
    show ?thesis
    proof (cases "s = []")
      case True
      with s xs ih show ?thesis by simp
    next
      case False
      show ?thesis
      proof (cases "mergeText (map normalizeNode cs)")
        case Nil
        with ih have "resegment xs' = []" by (simp add: parseContents_Nil)
        with Nil s xs False show ?thesis
          by (simp add: parseContents_Cons parseChild_Text parseContents_Nil)
      next
        case (Cons n ns)
        with ih obtain y ys where
          y: "parseChild unit n = Inr y" "parseContents unit ns = Inr ys" "resegment xs' = y # ys"
          by (auto simp: parseContents_Cons split: sum.splits)
        from parseChild_Inr_cases [OF y(1)] show ?thesis
        proof
          assume "\<exists>t. n = Text t \<and> y = Str t"
          then obtain t where "n = Text t" "y = Str t" by auto
          with Cons y s xs False show ?thesis
            by (simp add: parseContents_Cons parseChild_Text)
        next
          assume "\<exists>as t. n = Element ''ph'' as [Text t] \<and> y = Placeholder t"
          then obtain as t where "n = Element ''ph'' as [Text t]" "y = Placeholder t" by auto
          with Cons y s xs False show ?thesis
            by (simp add: parseContents_Cons parseChild_Text parseChild_ph)
        qed
      qed
    qed
  next
    assume "\<exists>as t. child = Element ''ph'' as [Text t] \<and> x = Placeholder t"
    then obtain as t where p: "child = Element ''ph'' as [Text t]" "x = Placeholder t" by auto
    with Cons.prems(2) xs have "t \<noteq> []" by auto
    with p xs ih show ?thesis
      by (simp add: parseContents_Cons parseChild_ph)
  qed
qed


lemma traverse_map_rel:
  "traverse f xs = Inr ys \<Longrightarrow> (\<And>x y. f x = Inr y \<Longrightarrow> P y \<Longrightarrow> f (g x) = Inr (h y)) \<Longrightarrow>
     (\<And>y. y \<in> set ys \<Longrightarrow> P y) \<Longrightarrow> traverse f (map g xs) = Inr (map h ys)"
proof (induction xs arbitrary: ys)
  case Nil
  then show ?case by simp
next
  case (Cons x xs)
  from Cons.prems(1) obtain y ys' where
    y: "f x = Inr y" "traverse f xs = Inr ys'" "ys = y # ys'"
    by (auto split: sum.splits)
  have p: "P z" if "z \<in> set ys" for z using that by (rule Cons.prems(3))
  have "traverse f (map g xs) = Inr (map h ys')"
  proof (rule Cons.IH [OF y(2)])
    show "f (g a) = Inr (h b)" if "f a = Inr b" "P b" for a b using that by (rule Cons.prems(2))
    show "P z" if "z \<in> set ys'" for z using that p y(3) by simp
  qed
  moreover have "f (g x) = Inr (h y)"
    using y(1) by (rule Cons.prems(2)) (simp add: p y(3))
  ultimately show ?case using y(3) by simp
qed

lemma getOne_normalize:
  "getOneElementByTagNameOrThrow n tag = Inr e \<Longrightarrow>
     getOneElementByTagNameOrThrow (normalizeNode n) tag = Inr (normalizeNode e)"
  by (simp add: getOneElement_Inr elements_normalize)

lemma parseMsg_normalize:
  assumes "parseMsg m = Inr msg" and "Placeholder [] \<notin> set (contents msg)"
  shows "parseMsg (normalizeNode m) = Inr (reseg msg)"
proof -
  from assms(1) obtain nm cs where
    n: "getNonEmptyAttributeOrThrow m ''name'' = Inr nm" and
    c: "parseContents ''msg'' (childNodes m) = Inr cs" and
    m: "msg = \<lparr>name = nm, contents = cs\<rparr>"
    by (auto simp: parseMsg_def split: sum.splits)
  from assms(2) m have "Placeholder [] \<notin> set cs" by simp
  with c have "parseContents ''msg'' (childNodes (normalizeNode m)) = Inr (resegment cs)"
    by (simp add: childNodes_normalize parseContents_normalize)
  with n m show ?thesis
    by (simp add: parseMsg_def attribute_normalize reseg_def)
qed

lemma parseXmb_normalize:
  assumes "parseXmb doc = Inr b"
    and "\<And>m. m \<in> set (messages b) \<Longrightarrow> Placeholder [] \<notin> set (contents m)"
  shows "parseXmb (normalizeNode doc) =
           Inr \<lparr>bundleLocale = bundleLocale b, messages = map reseg (messages b)\<rparr>"
proof -
  from assms(1) obtain bnd loc where
    e: "getOneElementByTagNameOrThrow doc ''localizationbundle'' = Inr bnd" and
    l: "getNonEmptyAttributeOrThrow bnd ''locale'' = Inr loc" and
    t: "traverse parseMsg (getElementsByTagName doc ''msg'') = Inr (messages b)" and
    b: "bundleLocale b = loc"
    by (auto simp: parseXmb_def split: sum.splits)
  have "traverse parseMsg (map normalizeNode (getElementsByTagName doc ''msg'')) =
          Inr (map reseg (messages b))"
    using t
  proof (rule traverse_map_rel)
    show "parseMsg (normalizeNode x) = Inr (reseg y)"
      if "parseMsg x = Inr y" "Placeholder [] \<notin> set (contents y)" for x y
      using that by (rule parseMsg_normalize)
  qed (rule assms(2))
  with getOne_normalize [OF e] l b show ?thesis
    by (simp add: parseXmb_def attribute_normalize elements_normalize)
qed

lemma parseTransUnit_normalize:
  assumes "parseTransUnit tu = Inr r"
    and "\<And>m. r = Some m \<Longrightarrow> Placeholder [] \<notin> set (contents m)"
  shows "parseTransUnit (normalizeNode tu) = Inr (map_option reseg r)"
proof -
  from assms(1) obtain nm where
    n: "getNonEmptyAttributeOrThrow tu ''id'' = Inr nm"
    by (auto simp: parseTransUnit_def split: sum.splits)
  show ?thesis
  proof (cases "getElementsByTagName tu ''target''")
    case Nil
    with assms(1) n show ?thesis
      by (simp add: parseTransUnit_def attribute_normalize elements_normalize)
  next
    case (Cons t ts)
    show ?thesis
    proof (cases ts)
      case Nil
      with Cons assms(1) n obtain cs where
        c: "parseContents ''trans-unit'' (childNodes t) = Inr cs" and
        r: "r = Some \<lparr>name = nm, contents = cs\<rparr>"
        by (auto simp: parseTransUnit_def split: sum.splits)
      from assms(2) [OF r] have "Placeholder [] \<notin> set cs" by simp
      with c have "parseContents ''trans-unit'' (childNodes (normalizeNode t)) = Inr (resegment cs)"
        by (simp add: childNodes_normalize parseContents_normalize)
      with Cons Nil n r show ?thesis
        by (simp add: parseTransUnit_def attribute_normalize elements_normalize reseg_def)
    next
      case (Cons u us)
      with \<open>getElementsByTagName tu ''target'' = t # ts\<close> assms(1) n show ?thesis
        by (simp add: parseTransUnit_def)
    qed
  qed
qed

lemma map_filter_map_option:
  "List.map_filter id (map (map_option f) xs) = map f (List.map_filter id xs)"
  by (induction xs) (simp_all add: List.map_filter_simps split: option.splits)

lemma parseXlif_normalize:
  assumes "parseXlif doc = Inr b"
    and "\<And>m. m \<in> set (messages b) \<Longrightarrow> Placeholder [] \<notin> set (contents m)"
  shows "parseXlif (normalizeNode doc) =
           Inr \<lparr>bundleLocale = bundleLocale b, messages = map reseg (messages b)\<rparr>"
proof -
  from assms(1) obtain fl loc ms where
    e: "getOneElementByTagNameOrThrow doc ''file'' = Inr fl" and
    l: "getNonEmptyAttributeOrThrow fl ''target-language'' = Inr loc" and
    t: "traverse parseTransUnit (getElementsByTagName fl ''trans-unit'') = Inr ms" and
    b: "bundleLocale b = loc" "messages b = List.map_filter id ms"
    by (auto simp: parseXlif_def split: sum.splits)
  have "traverse parseTransUnit (map normalizeNode (getElementsByTagName fl ''trans-unit'')) =
          Inr (map (map_option reseg) ms)"
    using t
  proof (rule traverse_map_rel)
    show "parseTransUnit (normalizeNode x) = Inr (map_option reseg y)"
      if "parseTransUnit x = Inr y" "\<forall>m. y = Some m \<longrightarrow> Placeholder [] \<notin> set (contents m)" for x y
      using that by (intro parseTransUnit_normalize) auto
    show "\<forall>m. y = Some m \<longrightarrow> Placeholder [] \<notin> set (contents m)" if "y \<in> set ms" for y
      using that assms(2) b(2) by (auto simp: map_filter_id_set)
  qed
  with getOne_normalize [OF e] l b show ?thesis
    by (simp add: parseXlif_def attribute_normalize elements_normalize map_filter_map_option)
qed

lemma resegment_placeholders: "placeholders (resegment cs) = placeholders cs"
proof (induction cs rule: resegment.induct)
  case (2 s rest)
  then show ?case by (cases "resegment rest" rule: resegment.cases) (auto split: list.splits content.splits)
qed simp_all

lemma resegment_renderedText: "renderedText (resegment cs) = renderedText cs"
proof (induction cs rule: resegment.induct)
  case (2 s rest)
  then show ?case by (cases "resegment rest" rule: resegment.cases) (auto split: list.splits content.splits)
qed simp_all


lemma xlbExpected_reseg: "map reseg (xlbExpected (\<lambda>cs. cs) ms) = xlbExpected resegment ms"
  by (simp add: xlbExpected_def reseg_def)

lemma xliffExpected_reseg: "map reseg (xliffExpected (\<lambda>cs. cs) tr ms) = xliffExpected resegment tr ms"
  unfolding xliffExpected_def
  by (induction ms) (simp_all add: List.map_filter_simps reseg_def split: option.splits)

lemma xliffExpected_contents:
  "m' \<in> set (xliffExpected (\<lambda>cs. cs) tr ms) \<Longrightarrow>
     \<exists>m \<in> set ms. \<exists>t. tr (name m) = Some t \<and> contents m' = contents t"
  unfolding xliffExpected_def
  by (induction ms) (auto simp: List.map_filter_simps split: option.splits)

section \<open>Facts about the whitespace of the written documents\<close>

lemma layout_indent:
  "layout cl lv [] (indent k # rest) = layout cl lv (nodeValue (indent k)) rest"
  by (simp add: indent_def)

lemma nodeValue_indent_0: "nodeValue (indent 0) = [CHR 0x0A]"
  by (simp add: indent_def)

lemma nodeValue_indent_1: "nodeValue (indent 1) = CHR 0x0A # ''  ''"
  by (simp add: indent_def)

lemma nodeValue_indent_2: "nodeValue (indent 2) = CHR 0x0A # ''    ''"
  by (simp add: indent_def numeral_2_eq_2)

lemma Text_nodeValue_indent: "Text (nodeValue (indent k)) = indent k"
  by (simp add: indent_def)

lemma layout_xlb_messages:
  "layout cl lv [] (concat (map (\<lambda>m. [indent k, xlbMessageNode m]) ms) @ [indent j]) =
   map (\<lambda>m. (Opening ''msg'', lv, nodeValue (indent k))) ms @
   [(fst cl, snd cl, nodeValue (indent j))]"
  by (induction ms)
     (simp_all add: layout_indent xlbMessageNode_def holdsMessageText_def)

lemma layout_xlb:
  "layoutRows (xlbDocument loc ms) =
     [(Opening ''localizationbundle'', 0, nodeValue (indent 0)),
      (Opening ''messages'', 1, nodeValue (indent 1))] @
     map (\<lambda>m. (Opening ''msg'', 2, nodeValue (indent 2))) ms @
     [(Closing ''messages'', 1, nodeValue (indent 1)),
      (Closing ''localizationbundle'', 0, nodeValue (indent 0)),
      (EndOfDocument, 0, nodeValue (indent 0))]"
  by (simp add: layoutRows_def xlbDocument_def xmlDeclaration_def xlbMessagesNode_def
        layout_indent layout_xlb_messages holdsMessageText_def numeral_2_eq_2)

lemma layout_transUnit_children:
  "layout (Closing ''trans-unit'', 3) 4 [] (childNodes (transUnitNode tr m)) =
   xliffUnitRows tr m"
  by (simp add: transUnitNode_def xliffUnitRows_def layout_indent holdsMessageText_def
        indent_def split: option.splits)

lemma layout_transUnits:
  "layout cl 3 (nodeValue (indent 0))
     (concat (map (\<lambda>m. [transUnitNode tr m, indent 0]) ms)) =
   concat (map (\<lambda>m. (Opening ''trans-unit'', 3, [CHR 0x0A]) # xliffUnitRows tr m) ms) @
   [(fst cl, snd cl, [CHR 0x0A])]"
proof (induction ms)
  case Nil
  then show ?case by (simp add: nodeValue_indent_0)
next
  case (Cons m ms)
  have "layout cl 3 p (transUnitNode tr m # rest) =
          (Opening ''trans-unit'', 3, p) #
          layout (Closing ''trans-unit'', 3) 4 [] (childNodes (transUnitNode tr m)) @
          layout cl 3 [] rest" for p rest
    by (simp add: transUnitNode_def holdsMessageText_def eval_nat_numeral)
  with Cons show ?case
    by (simp add: layout_indent layout_transUnit_children nodeValue_indent_0)
qed

lemma layout_xliff:
  "layoutRows (encodeLocale src tr ms tgt) =
     [(Opening ''xliff'', 0, [CHR 0x0A]), (Opening ''file'', 1, [CHR 0x0A]),
      (Opening ''body'', 2, [CHR 0x0A])] @
     concat (map (\<lambda>m. (Opening ''trans-unit'', 3, [CHR 0x0A]) # xliffUnitRows tr m) ms) @
     [(Closing ''body'', 2, [CHR 0x0A]), (Closing ''file'', 1, [CHR 0x0A]),
      (Closing ''xliff'', 0, [CHR 0x0A]), (EndOfDocument, 0, [CHR 0x0A])]"
  using layout_transUnits [of "(Closing ''body'', 2)" tr ms]
  by (simp add: layoutRows_def encodeLocale_def xmlDeclaration_def holdsMessageText_def
        layout_indent nodeValue_indent_0 eval_nat_numeral)

lemma map_eq_by_key:
  assumes "map f xs = map f' ys"
    and "\<And>x y. x \<in> set xs \<Longrightarrow> f x = f' y \<Longrightarrow> g x = h y"
  shows "map g xs = map h ys"
  using assms
proof (induction xs arbitrary: ys)
  case Nil
  then show ?case by simp
next
  case (Cons x xs)
  from Cons.prems(1) obtain y rest where ys: "ys = y # rest"
    by (cases ys) auto
  with Cons.prems(1) have key: "f x = f' y" and keys: "map f xs = map f' rest"
    by simp_all
  have "g x = h y"
    by (rule Cons.prems(2) [OF _ key]) simp
  moreover have "map g xs = map h rest"
  proof (rule Cons.IH [OF keys])
    fix a b
    assume "a \<in> set xs" and "f a = f' b"
    then show "g a = h b" by (intro Cons.prems(2)) simp_all
  qed
  ultimately show ?case by (simp add: ys)
qed

lemma xlbMessageNode_fieldsRead:
  "fieldsRead m = fieldsRead m' \<Longrightarrow> xlbMessageNode m = xlbMessageNode m'"
  by (simp add: fieldsRead_def xlbMessageNode_def)

lemma xlbDocument_fieldsRead:
  assumes "map fieldsRead ms = map fieldsRead ms'"
  shows "xlbDocument loc ms = xlbDocument loc ms'"
proof -
  have "map (\<lambda>m. [indent 2, xlbMessageNode m]) ms =
        map (\<lambda>m. [indent 2, xlbMessageNode m]) ms'"
  proof (rule map_eq_by_key [OF assms])
    fix x y
    assume "fieldsRead x = fieldsRead y"
    then have "xlbMessageNode x = xlbMessageNode y" by (rule xlbMessageNode_fieldsRead)
    then show "[indent 2, xlbMessageNode x] = [indent 2, xlbMessageNode y]" by simp
  qed
  then show ?thesis by (simp only: xlbDocument_def xlbMessagesNode_def)
qed

lemma transUnitNode_fieldsRead:
  "fieldsRead m = fieldsRead m' \<Longrightarrow>
   map_option contents (tr (name m)) = map_option contents (tr' (name m)) \<Longrightarrow>
   transUnitNode tr m = transUnitNode tr' m'"
  by (cases "tr (name m)"; cases "tr' (name m)")
     (simp_all add: fieldsRead_def transUnitNode_def)

lemma encodeLocale_fieldsRead:
  assumes "map fieldsRead ms = map fieldsRead ms'"
    and "\<forall>m \<in> set ms. map_option contents (tr (name m)) = map_option contents (tr' (name m))"
  shows "encodeLocale src tr ms tgt = encodeLocale src tr' ms' tgt"
proof -
  have "map (\<lambda>m. [transUnitNode tr m, indent 0]) ms =
        map (\<lambda>m. [transUnitNode tr' m, indent 0]) ms'"
  proof (rule map_eq_by_key [OF assms(1)])
    fix x y
    assume "x \<in> set ms" and key: "fieldsRead x = fieldsRead y"
    with assms(2)
    have "map_option contents (tr (name x)) = map_option contents (tr' (name x))"
      by blast
    with key have "transUnitNode tr x = transUnitNode tr' y"
      by (rule transUnitNode_fieldsRead)
    then show "[transUnitNode tr x, indent 0] = [transUnitNode tr' y, indent 0]" by simp
  qed
  then show ?thesis by (simp only: encodeLocale_def)
qed

section \<open>Facts about the translation lookup\<close>

lemma find_append:
  "List.find P (xs @ ys) = (case List.find P xs of Some x \<Rightarrow> Some x | None \<Rightarrow> List.find P ys)"
  by (induction xs) auto

lemma setAll_find:
  "setAll m ms n = (case List.find (\<lambda>x. name x = n) (rev ms) of Some x \<Rightarrow> Some x | None \<Rightarrow> m n)"
proof (induction ms arbitrary: m)
  case Nil
  then show ?case by simp
next
  case (Cons a ms)
  show ?case
    by (simp add: Cons.IH find_append split: option.splits)
qed

lemma setAll_notin: "(\<forall>x \<in> set ms. name x \<noteq> n) \<Longrightarrow> setAll m ms n = m n"
  by (induction ms arbitrary: m) auto

lemma setAll_append: "setAll m (xs @ ys) = setAll (setAll m xs) ys"
  by (induction xs arbitrary: m) simp_all

lemma setAll_last:
  "(\<forall>x \<in> set post. name x \<noteq> name m) \<Longrightarrow> setAll tr (pre @ m # post) (name m) = Some m"
  by (simp add: setAll_append setAll_notin)

lemma setAll_empty_find: "setAll Map.empty ms n = List.find (\<lambda>m. name m = n) (rev ms)"
  by (simp add: setAll_find split: option.splits)

section \<open>Facts about the visitor\<close>

lemma mapOutcome_first_Throw:
  "(\<And>x. x \<in> set pre \<Longrightarrow> \<exists>y. f x = Return y) \<Longrightarrow> f x = Throw e \<Longrightarrow>
     mapOutcome f (pre @ x # post) = Throw e"
proof (induction pre)
  case Nil
  then show ?case by simp
next
  case (Cons a pre)
  from Cons.prems(1) [of a] obtain y where "f a = Return y" by auto
  moreover have "mapOutcome f (pre @ x # post) = Throw e" using Cons by simp
  ultimately show ?case by simp
qed

















section \<open>Facts about a pass whose lookup lacks the identifiers of a tree\<close>

































section \<open>Claim C1: writing and reading back\<close>

text \<open>
  C1, as the code has it. Let every source message have a non-empty name.

  XLB, for a non-empty source locale: reading the document that \<^verbatim>\<open>writeOutput\<close> builds
  gives the bundle of that locale with one message per source message, in order, under
  the same name and with the same contents. XLIFF, for a non-empty target locale:
  reading the document that \<^verbatim>\<open>encodeLocale\<close> builds gives the bundle of the target locale
  with one message per source message that has a translation in the lookup, under the
  source message's name and with the translation's contents (a source message without a
  translation has no \<^verbatim>\<open>target\<close> and is skipped).

  Read back from the serialized text (the document in normal form), the same holds with
  the contents re-segmented, provided no placeholder payload is empty; re-segmenting keeps
  the sequence of placeholder payloads and the rendered text.
\<close>

theorem codec_roundtrip:
  assumes "\<forall>m \<in> set ms. name m \<noteq> []"
  shows
   "(loc \<noteq> [] \<longrightarrow>
       parseXmb (xlbDocument loc ms) =
         Inr \<lparr>bundleLocale = loc, messages = xlbExpected (\<lambda>cs. cs) ms\<rparr> \<and>
       ((\<forall>m \<in> set ms. Placeholder [] \<notin> set (contents m)) \<longrightarrow>
          parseXmb (normalizeNode (xlbDocument loc ms)) =
            Inr \<lparr>bundleLocale = loc, messages = xlbExpected resegment ms\<rparr>)) \<and>
    (tgt \<noteq> [] \<longrightarrow>
       parseXlif (encodeLocale src tr ms tgt) =
         Inr \<lparr>bundleLocale = tgt, messages = xliffExpected (\<lambda>cs. cs) tr ms\<rparr> \<and>
       ((\<forall>m \<in> set ms. \<forall>t. tr (name m) = Some t \<longrightarrow> Placeholder [] \<notin> set (contents t)) \<longrightarrow>
          parseXlif (normalizeNode (encodeLocale src tr ms tgt)) =
            Inr \<lparr>bundleLocale = tgt, messages = xliffExpected resegment tr ms\<rparr>)) \<and>
    placeholders (resegment cs) = placeholders cs \<and>
    renderedText (resegment cs) = renderedText cs"
proof (intro conjI impI)
  assume l: "loc \<noteq> []"
  from l assms show x: "parseXmb (xlbDocument loc ms) =
         Inr \<lparr>bundleLocale = loc, messages = xlbExpected (\<lambda>cs. cs) ms\<rparr>"
    by (intro xlb_roundtrip_exact) auto
  assume p: "\<forall>m \<in> set ms. Placeholder [] \<notin> set (contents m)"
  have "Placeholder [] \<notin> set (contents m')" if "m' \<in> set (xlbExpected (\<lambda>cs. cs) ms)" for m'
    using that p by (auto simp: xlbExpected_def)
  then have "parseXmb (normalizeNode (xlbDocument loc ms)) =
          Inr \<lparr>bundleLocale = loc, messages = map reseg (xlbExpected (\<lambda>cs. cs) ms)\<rparr>"
    using parseXmb_normalize [OF x] by simp
  then show "parseXmb (normalizeNode (xlbDocument loc ms)) =
            Inr \<lparr>bundleLocale = loc, messages = xlbExpected resegment ms\<rparr>"
    by (simp add: xlbExpected_reseg)
next
  assume l: "tgt \<noteq> []"
  from l assms show x: "parseXlif (encodeLocale src tr ms tgt) =
         Inr \<lparr>bundleLocale = tgt, messages = xliffExpected (\<lambda>cs. cs) tr ms\<rparr>"
    by (intro xliff_roundtrip_exact) auto
  assume p: "\<forall>m \<in> set ms. \<forall>t. tr (name m) = Some t \<longrightarrow> Placeholder [] \<notin> set (contents t)"
  have "Placeholder [] \<notin> set (contents m')" if "m' \<in> set (xliffExpected (\<lambda>cs. cs) tr ms)" for m'
    using xliffExpected_contents [OF that] p by auto
  then have "parseXlif (normalizeNode (encodeLocale src tr ms tgt)) =
          Inr \<lparr>bundleLocale = tgt, messages = map reseg (xliffExpected (\<lambda>cs. cs) tr ms)\<rparr>"
    using parseXlif_normalize [OF x] by simp
  then show "parseXlif (normalizeNode (encodeLocale src tr ms tgt)) =
            Inr \<lparr>bundleLocale = tgt, messages = xliffExpected resegment tr ms\<rparr>"
    by (simp add: xliffExpected_reseg)
next
  show "placeholders (resegment cs) = placeholders cs" by (rule resegment_placeholders)
  show "renderedText (resegment cs) = renderedText cs" by (rule resegment_renderedText)
qed

text \<open>
  The claim as stated covers every list of messages. A message with the empty name is
  written but not read back (the reader requires a non-empty \<^verbatim>\<open>name\<close>); a placeholder
  with the empty payload is written as a \<^verbatim>\<open>ph\<close> element whose only child is an empty text
  node, which does not survive serialization, and the reader then rejects the \<^verbatim>\<open>ph\<close>.
\<close>

theorem codec_roundtrip_counterexample:
  "\<not> (\<exists>b. parseXmb (xlbDocument ''en''
          [\<lparr>name = [], contents = [Str ''Hello''], descStack = []\<rparr>]) = Inr b) \<and>
   parseXmb (normalizeNode (xlbDocument ''en''
          [\<lparr>name = ''greeting'', contents = [Str ''Hello '', Placeholder []], descStack = []\<rparr>]))
     = Inl (KnownError ''Expected <ph> to have exactly one text node'')"
proof -
  have "parseXmb (xlbDocument ''en''
          [\<lparr>name = [], contents = [Str ''Hello''], descStack = []\<rparr>])
        = Inl (KnownError ''Expected non-empty attribute name'')"
    by code_simp
  moreover have "parseXmb (normalizeNode (xlbDocument ''en''
          [\<lparr>name = ''greeting'', contents = [Str ''Hello '', Placeholder []], descStack = []\<rparr>]))
     = Inl (KnownError ''Expected <ph> to have exactly one text node'')"
    by code_simp
  ultimately show ?thesis by auto
qed

theorem codec_roundtrip_witness:
  "name greeting \<noteq> [] \<and>
   Placeholder [] \<notin> set (contents greeting) \<and> Placeholder [] \<notin> set (contents saludo) \<and>
   parseXmb (xlbDocument ''en'' [greeting]) =
     Inr \<lparr>bundleLocale = ''en'', messages = [\<lparr>name = ''greeting'',
       contents = [Str ''Hello '', Placeholder ''<b>'', Str ''World'', Str ''!'', Placeholder ''</b>'']\<rparr>]\<rparr> \<and>
   parseXmb (normalizeNode (xlbDocument ''en'' [greeting])) =
     Inr \<lparr>bundleLocale = ''en'', messages = [\<lparr>name = ''greeting'',
       contents = [Str ''Hello '', Placeholder ''<b>'', Str ''World!'', Placeholder ''</b>'']\<rparr>]\<rparr> \<and>
   parseXlif (normalizeNode (encodeLocale ''en'' [''greeting'' \<mapsto> saludo] [greeting] ''es'')) =
     Inr \<lparr>bundleLocale = ''es'', messages = [\<lparr>name = ''greeting'',
       contents = [Str ''Hola '', Placeholder ''<b>'', Str ''Mundo'', Placeholder ''</b>'']\<rparr>]\<rparr>"
  using codec_roundtrip [of "[greeting]" "''en''" "''es''" "''en''" "[''greeting'' \<mapsto> saludo]"]
  by (simp add: greeting_def saludo_def xlbExpected_def xliffExpected_def List.map_filter_simps)

section \<open>Claim C3: two messages with one identifier\<close>

text \<open>
  C3, as the code has it. The lookup that \<^verbatim>\<open>transformOutput\<close> builds for a target locale
  maps an identifier to the last message of the bundle's list that carries it: each
  \<^verbatim>\<open>translations.set\<close> overwrites the entry of an earlier message with the same name. No
  duplicate is rejected, and the first occurrence is not the one kept. The lookup is a
  function of the list, the same on every run. For the source locale there is no lookup.
  (The codecs build theirs with \<^verbatim>\<open>makeMessageIdMap\<close>, which is not among the sources;
  nothing is stated about it.)
\<close>

theorem lookup_last_wins:
  "setAll Map.empty ms n = List.find (\<lambda>m. name m = n) (rev ms) \<and>
   ((\<forall>x \<in> set post. name x \<noteq> name m) \<longrightarrow> setAll Map.empty (pre @ m # post) (name m) = Some m) \<and>
   translationsFor config byLocale (sourceLocale config) = None \<and>
   (loc \<noteq> sourceLocale config \<longrightarrow>
      translationsFor config byLocale loc =
        Some (setAll Map.empty (case byLocale loc of Some ms \<Rightarrow> ms | None \<Rightarrow> [])))"
  by (simp add: setAll_empty_find [symmetric] setAll_last translationsFor_def)

text \<open>
  The claim as stated has the later duplicate rejected or the first occurrence kept.
  With two messages named \<^verbatim>\<open>greeting\<close>, the lookup holds the second.
\<close>

theorem lookup_last_wins_counterexample:
  "setAll Map.empty
     [\<lparr>name = ''greeting'', contents = [Str ''first'']\<rparr>,
      \<lparr>name = ''greeting'', contents = [Str ''second'']\<rparr>] ''greeting''
     = Some \<lparr>name = ''greeting'', contents = [Str ''second'']\<rparr> \<and>
   \<lparr>name = ''greeting'', contents = [Str ''second'']\<rparr>
     \<noteq> \<lparr>name = ''greeting'', contents = [Str ''first'']\<rparr>"
  by simp


theorem lookup_last_wins_witness:
  "name \<lparr>name = ''farewell'', contents = [Str ''adios'']\<rparr> \<noteq> name saludo \<and>
   setAll Map.empty
     [\<lparr>name = ''greeting'', contents = [Str ''first'']\<rparr>, saludo,
      \<lparr>name = ''farewell'', contents = [Str ''adios'']\<rparr>] ''greeting'' = Some saludo \<and>
   ''es'' \<noteq> sourceLocale \<lparr>sourceLocale = ''en'', targetLocales = [''es''], xliffDir = ''xliff''\<rparr> \<and>
   translationsFor \<lparr>sourceLocale = ''en'', targetLocales = [''es''], xliffDir = ''xliff''\<rparr>
     [''es'' \<mapsto> [saludo]] ''es'' = Some (setAll Map.empty [saludo]) \<and>
   translationsFor \<lparr>sourceLocale = ''en'', targetLocales = [''es''], xliffDir = ''xliff''\<rparr>
     [''es'' \<mapsto> [saludo]] ''en'' = None"
  using lookup_last_wins [where post = "[\<lparr>name = ''farewell'', contents = [Str ''adios'']\<rparr>]"
          and m = saludo and pre = "[\<lparr>name = ''greeting'', contents = [Str ''first'']\<rparr>]"
          and config = "\<lparr>sourceLocale = ''en'', targetLocales = [''es''], xliffDir = ''xliff''\<rparr>"
          and byLocale = "[''es'' \<mapsto> [saludo]]" and loc = "''es''"]
  by (simp add: saludo_def)

section \<open>Claim C4: a call site without a translation\<close>






section \<open>Claim C5: one file per target locale, a missing file is skipped\<close>

text \<open>
  C5. \<^verbatim>\<open>readTranslations\<close> hands to \<^verbatim>\<open>readFile\<close> exactly one path per configured target
  locale, \<^verbatim>\<open>path.join(resolve(xliffDir), locale + '.xlf')\<close>, in the order of the locales. If
  the read of some locale is rejected with an error whose code is not \<^verbatim>\<open>ENOENT\<close>, the whole
  operation fails. If every read either is rejected with \<^verbatim>\<open>ENOENT\<close> or gives a text that
  parses, the operation succeeds with the bundles of the files that were read, in order:
  a locale whose file is missing contributes no bundle and no error.
\<close>

theorem readTranslations_files:
  "fst (readTranslations p config) =
     map (\<lambda>loc. pathJoin p (resolve p (xliffDir config)) (loc @ ''.xlf'')) (targetLocales config) \<and>
   ((\<exists>loc \<in> set (targetLocales config). \<exists>err.
        readFile p (xlfPath p config loc) = Inl err \<and> code err \<noteq> Some ''ENOENT'') \<longrightarrow>
      (\<exists>e. snd (readTranslations p config) = Inl e)) \<and>
   ((\<forall>loc \<in> set (targetLocales config).
        (\<exists>err. readFile p (xlfPath p config loc) = Inl err \<and> code err = Some ''ENOENT'') \<or>
        (\<exists>xmlStr b. readFile p (xlfPath p config loc) = Inr xmlStr \<and>
                     parseXlif (parseFromString p xmlStr) = Inr b)) \<longrightarrow>
      snd (readTranslations p config) =
        Inr (concat (map (bundlesRead p config) (targetLocales config))))"
proof (intro conjI impI)
  show "fst (readTranslations p config) =
     map (\<lambda>loc. pathJoin p (resolve p (xliffDir config)) (loc @ ''.xlf'')) (targetLocales config)"
    by (simp add: readTranslations_def xlfPath_def)
next
  assume "\<exists>loc \<in> set (targetLocales config). \<exists>err.
        readFile p (xlfPath p config loc) = Inl err \<and> code err \<noteq> Some ''ENOENT''"
  then obtain loc err where "loc \<in> set (targetLocales config)"
    "readFile p (xlfPath p config loc) = Inl err" "code err \<noteq> Some ''ENOENT''" by auto
  then show "\<exists>e. snd (readTranslations p config) = Inl e"
    by (rule readLocale_fails)
next
  assume h: "\<forall>loc \<in> set (targetLocales config).
        (\<exists>err. readFile p (xlfPath p config loc) = Inl err \<and> code err = Some ''ENOENT'') \<or>
        (\<exists>xmlStr b. readFile p (xlfPath p config loc) = Inr xmlStr \<and>
                     parseXlif (parseFromString p xmlStr) = Inr b)"
  show "snd (readTranslations p config) =
        Inr (concat (map (bundlesRead p config) (targetLocales config)))"
  proof (rule readTranslations_succeeds)
    fix loc assume "loc \<in> set (targetLocales config)"
    with h show "(\<exists>err. readFile p (xlfPath p config loc) = Inl err \<and> code err = Some ''ENOENT'') \<or>
        (\<exists>xmlStr b. readFile p (xlfPath p config loc) = Inr xmlStr \<and>
                     parseXlif (parseFromString p xmlStr) = Inr b)" by (rule bspec)
  qed
qed

theorem readTranslations_files_witness:
  "readFile demoPlatform (xlfPath demoPlatform
       \<lparr>sourceLocale = ''en'', targetLocales = [''es'', ''fr''], xliffDir = ''xliff''\<rparr> ''fr'')
     = Inl (IOError ''ENOENT'') \<and>
   readTranslations demoPlatform
       \<lparr>sourceLocale = ''en'', targetLocales = [''es'', ''fr''], xliffDir = ''xliff''\<rparr>
     = ([''xliff/es.xlf'', ''xliff/fr.xlf''],
        Inr [\<lparr>bundleLocale = ''es'',
              messages = [\<lparr>name = ''greeting'', contents = [Str ''Hola'']\<rparr>]\<rparr>]) \<and>
   readFile demoPlatform (xlfPath demoPlatform
       \<lparr>sourceLocale = ''en'', targetLocales = [''es'', ''de'', ''fr''], xliffDir = ''xliff''\<rparr> ''de'')
     = Inl (IOError ''EACCES'') \<and>
   readTranslations demoPlatform
       \<lparr>sourceLocale = ''en'', targetLocales = [''es'', ''de'', ''fr''], xliffDir = ''xliff''\<rparr>
     = ([''xliff/es.xlf'', ''xliff/de.xlf'', ''xliff/fr.xlf''], Inl (IOError ''EACCES''))"
proof -
  have a: "readTranslations demoPlatform
       \<lparr>sourceLocale = ''en'', targetLocales = [''es'', ''fr''], xliffDir = ''xliff''\<rparr>
     = ([''xliff/es.xlf'', ''xliff/fr.xlf''],
        Inr [\<lparr>bundleLocale = ''es'',
              messages = [\<lparr>name = ''greeting'', contents = [Str ''Hola'']\<rparr>]\<rparr>])"
    by code_simp
  have b: "readTranslations demoPlatform
       \<lparr>sourceLocale = ''en'', targetLocales = [''es'', ''de'', ''fr''], xliffDir = ''xliff''\<rparr>
     = ([''xliff/es.xlf'', ''xliff/de.xlf'', ''xliff/fr.xlf''], Inl (IOError ''EACCES''))"
    by code_simp
  have c: "readFile demoPlatform (xlfPath demoPlatform
       \<lparr>sourceLocale = ''en'', targetLocales = [''es'', ''fr''], xliffDir = ''xliff''\<rparr> ''fr'')
     = Inl (IOError ''ENOENT'')"
    by code_simp
  have d: "readFile demoPlatform (xlfPath demoPlatform
       \<lparr>sourceLocale = ''en'', targetLocales = [''es'', ''de'', ''fr''], xliffDir = ''xliff''\<rparr> ''de'')
     = Inl (IOError ''EACCES'')"
    by code_simp
  show ?thesis
    using a b c d
      readTranslations_files [of demoPlatform
        "\<lparr>sourceLocale = ''en'', targetLocales = [''es'', ''de'', ''fr''], xliffDir = ''xliff''\<rparr>"]
    by simp
qed

section \<open>Claim C6: the children of a unit\<close>

text \<open>
  C6, as the code has it. Reading the children of a unit (\<^verbatim>\<open>msg\<close> in XLB, the
  \<^verbatim>\<open>target\<close> of a \<^verbatim>\<open>trans-unit\<close> in XLIFF) succeeds exactly when every child is a text
  node or a \<^verbatim>\<open>ph\<close> element with exactly one child, a text node; the contents are then the
  text of the text nodes and, for each placeholder, the value of its one text node. The
  first \<^verbatim>\<open>ph\<close> with no child, several children or a child that is not text ends the read
  with the KnownError \<^verbatim>\<open>Expected <ph> to have exactly one text node\<close>; the first child
  that is neither text nor \<^verbatim>\<open>ph\<close> ends it with
  \<^verbatim>\<open>Unexpected node in <unit>: nodeType nodeName\<close>. Neither message carries the name or id
  of the unit. The errors are fatal: a bundle is returned only when every unit that is read
  has children of the accepted shape.
\<close>

theorem unit_children_shape:
  "(parseContents unit children = Inr cs \<longleftrightarrow>
      (\<forall>child \<in> set children. acceptedChild child) \<and> cs = map contentOf children) \<and>
   ((\<forall>c \<in> set pre. acceptedChild c) \<and> isElementNamed ''ph'' child \<and> \<not> hasOneTextChild child \<longrightarrow>
      parseContents unit (pre @ child # post) =
        Inl (KnownError ''Expected <ph> to have exactly one text node'')) \<and>
   ((\<forall>c \<in> set pre. acceptedChild c) \<and> \<not> isText child \<and> \<not> isElementNamed ''ph'' child \<longrightarrow>
      parseContents unit (pre @ child # post) =
        Inl (KnownError (''Unexpected node in <'' @ unit @ ''>: '' @
                         string_of_nat (nodeType child) @ '' '' @ nodeName child))) \<and>
   (parseXmb doc = Inr b \<longrightarrow>
      (\<forall>m \<in> set (getElementsByTagName doc ''msg''). \<forall>c \<in> set (childNodes m). acceptedChild c)) \<and>
   (parseXlif doc = Inr b \<longrightarrow>
      (\<forall>file \<in> set (getElementsByTagName doc ''file'').
       \<forall>tu \<in> set (getElementsByTagName file ''trans-unit'').
       \<forall>tgt \<in> set (getElementsByTagName tu ''target'').
       \<forall>c \<in> set (childNodes tgt). acceptedChild c))"
proof (intro conjI impI ballI)
  show "parseContents unit children = Inr cs \<longleftrightarrow>
      (\<forall>child \<in> set children. acceptedChild child) \<and> cs = map contentOf children"
    by (rule parseContents_Inr_iff)
next
  assume h: "(\<forall>c \<in> set pre. acceptedChild c) \<and> isElementNamed ''ph'' child \<and> \<not> hasOneTextChild child"
  then have "parseChild unit child = Inl ph_error" by (simp add: parseChild_ph_error)
  with h show "parseContents unit (pre @ child # post) =
        Inl (KnownError ''Expected <ph> to have exactly one text node'')"
    unfolding parseContents_def ph_error_def [symmetric]
    by (intro traverse_first_Inl) (auto simp: parseChild_accepted)
next
  assume h: "(\<forall>c \<in> set pre. acceptedChild c) \<and> \<not> isText child \<and> \<not> isElementNamed ''ph'' child"
  then have "parseChild unit child = Inl (unexpected_node unit child)"
    by (simp add: parseChild_unexpected)
  with h show "parseContents unit (pre @ child # post) =
        Inl (KnownError (''Unexpected node in <'' @ unit @ ''>: '' @
                         string_of_nat (nodeType child) @ '' '' @ nodeName child))"
    unfolding parseContents_def unexpected_node_def [symmetric]
    by (intro traverse_first_Inl) (auto simp: parseChild_accepted)
next
  fix m c
  assume p: "parseXmb doc = Inr b" and m: "m \<in> set (getElementsByTagName doc ''msg'')"
    and c: "c \<in> set (childNodes m)"
  from traverse_Inr_D [OF parseXmb_msgs [OF p] m] obtain msg where "parseMsg m = Inr msg" by blast
  then obtain cts where "parseContents ''msg'' (childNodes m) = Inr cts"
    by (auto simp: parseMsg_def split: sum.splits)
  with c show "acceptedChild c" by (simp add: parseContents_Inr_iff)
next
  fix fl tu tgt c
  assume p: "parseXlif doc = Inr b" and f: "fl \<in> set (getElementsByTagName doc ''file'')"
    and tu: "tu \<in> set (getElementsByTagName fl ''trans-unit'')"
    and tg: "tgt \<in> set (getElementsByTagName tu ''target'')"
    and c: "c \<in> set (childNodes tgt)"
  from parseXlif_units [OF p] f obtain ms where
    t: "traverse parseTransUnit (getElementsByTagName fl ''trans-unit'') = Inr ms" by auto
  from traverse_Inr_D [OF t tu] obtain r where r: "parseTransUnit tu = Inr r" by blast
  from tu have "isElementNamed ''trans-unit'' tu" by (simp add: getElementsByTagName_set)
  then obtain n as cs where e: "tu = Element n as cs" by (cases tu) auto
  from parseTransUnit_target [OF r [unfolded e] tg [unfolded e]]
  obtain cts where "parseContents ''trans-unit'' (childNodes tgt) = Inr cts" by blast
  with c show "acceptedChild c" by (simp add: parseContents_Inr_iff)
qed

text \<open>
  The claim as stated asks for a message that names the offending unit. The message is
  the same fixed text for a unit named \<^verbatim>\<open>greeting\<close>, a unit named \<^verbatim>\<open>farewell\<close> and an XLIFF
  unit: it names none of them.
\<close>

theorem ph_error_names_no_unit:
  "parseXmb (Document [Element ''localizationbundle'' [(''locale'', ''es'')]
     [Element ''messages'' []
        [Element ''msg'' [(''name'', ''greeting'')] [Text ''Hola '', Element ''ph'' [] []]]]])
     = Inl (KnownError ''Expected <ph> to have exactly one text node'') \<and>
   parseXmb (Document [Element ''localizationbundle'' [(''locale'', ''es'')]
     [Element ''messages'' []
        [Element ''msg'' [(''name'', ''farewell'')] [Text ''Hola '', Element ''ph'' [] []]]]])
     = Inl (KnownError ''Expected <ph> to have exactly one text node'') \<and>
   parseXlif (Document [Element ''xliff'' [] [Element ''file'' [(''target-language'', ''es'')]
     [Element ''body'' [] [Element ''trans-unit'' [(''id'', ''greeting'')]
        [Element ''target'' []
           [Element ''ph'' [(''id'', ''0'')] [Text ''<b>'', Text ''</b>'']]]]]]])
     = Inl (KnownError ''Expected <ph> to have exactly one text node'')"
  by code_simp

lemma string_of_nat_8: "string_of_nat 8 = ''8''"
  by code_simp

theorem unit_children_shape_witness:
  "parseContents ''msg'' [Text ''Hola '', Element ''ph'' [] [Text ''<b>'']]
      = Inr [Str ''Hola '', Placeholder ''<b>''] \<and>
   acceptedChild (Text ''Hola '') \<and> acceptedChild (Element ''ph'' [] [Text ''<b>'']) \<and>
   isElementNamed ''ph'' (Element ''ph'' [] []) \<and> \<not> hasOneTextChild (Element ''ph'' [] []) \<and>
   parseContents ''msg'' [Text ''Hola '', Element ''ph'' [] []]
      = Inl (KnownError ''Expected <ph> to have exactly one text node'') \<and>
   \<not> isText (Comment ''x'') \<and> \<not> isElementNamed ''ph'' (Comment ''x'') \<and>
   parseContents ''trans-unit'' [Text ''Hola '', Comment ''x'']
      = Inl (KnownError ''Unexpected node in <trans-unit>: 8 #comment'')"
  using unit_children_shape [of "''msg''" "[Text ''Hola '', Element ''ph'' [] [Text ''<b>'']]"
          "[Str ''Hola '', Placeholder ''<b>'']" "[Text ''Hola '']" "Element ''ph'' [] []" "[]"]
        unit_children_shape [of "''trans-unit''" "[]" "[]" "[Text ''Hola '']" "Comment ''x''" "[]"]
  by (simp add: acceptedChild_def hasOneTextChild_def string_of_nat_8)

section \<open>Claim C7: a call to the run-time configuration entry point\<close>

text \<open>
  C7 at the inputs where the code departs from it. The claim has the error identify the
  offending file, and has the call never reach the output. When \<^verbatim>\<open>visitNode\<close> reaches a
  call whose callee's type carries the property \<^verbatim>\<open>_LIT_LOCALIZE_CONFIGURE_LOCALIZATION_\<close>, it
  throws a \<^verbatim>\<open>KnownError\<close> with the fixed message \<^verbatim>\<open>Cannot use configureLocalization in
  transform mode. Use configureTransformLocalization instead.\<close>: the error thrown while
  transforming \<^verbatim>\<open>src/app.ts\<close> and the one thrown while transforming \<^verbatim>\<open>src/other.ts\<close> are
  the same value, which names neither file (the \<^verbatim>\<open>TODO\<close> above the \<^verbatim>\<open>throw\<close> says that the
  error should be a formatted diagnostic and is not). And when such a call is the
  argument of a \<^verbatim>\<open>Localized(...)\<close> mixin call, \<^verbatim>\<open>visitNode\<close> returns
  \<^verbatim>\<open>node.arguments[0]\<close> without visiting it: no error is thrown and the call stands in the
  output.
\<close>

theorem runtime_configuration_error:
  "visitNode 1 (demoTransformer\<lparr>sourceFile := ''src/app.ts''\<rparr>)
     (CallExpression [''_LIT_LOCALIZE_CONFIGURE_LOCALIZATION_''] (Identifier ''configureLocalization'') [])
     = Throw (KnownError
         ''Cannot use configureLocalization in transform mode. Use configureTransformLocalization instead.'') \<and>
   visitNode 1 (demoTransformer\<lparr>sourceFile := ''src/other.ts''\<rparr>)
     (CallExpression [''_LIT_LOCALIZE_CONFIGURE_LOCALIZATION_''] (Identifier ''configureLocalization'') [])
     = Throw (KnownError
         ''Cannot use configureLocalization in transform mode. Use configureTransformLocalization instead.'') \<and>
   visitNode 1 (demoTransformer\<lparr>sourceFile := ''src/app.ts''\<rparr>)
     (CallExpression [''_LIT_LOCALIZE_LOCALIZED_''] (Identifier ''Localized'')
        [CallExpression [''_LIT_LOCALIZE_CONFIGURE_LOCALIZATION_'']
           (Identifier ''configureLocalization'') []])
     = Return (CallExpression [''_LIT_LOCALIZE_CONFIGURE_LOCALIZATION_'']
                 (Identifier ''configureLocalization'') [])"
  by (simp add: visitNode.simps configureLocalizationError_def)

section \<open>Claim C8: flattening a flattened template again\<close>






section \<open>Claim C9: the whitespace the writers insert\<close>

text \<open>
  C9, as the code has it. Each codec's serialization is deterministic: the document is a
  function of what the writer reads, so two lists of source messages with the same names,
  contents and description stacks (and, for XLIFF, translations with the same contents
  for those names) give the same document, whatever else the messages carry. Every
  whitespace text node a writer inserts is one newline and a number of times two spaces.
  In the XLB document that number is the nesting level, at every place: before every
  opening tag, before every closing tag and at the end of the document. In the XLIFF
  document it is not: a bare newline stands before the opening and closing tags of
  \<^verbatim>\<open>xliff\<close>, \<^verbatim>\<open>file\<close>, \<^verbatim>\<open>body\<close> and every \<^verbatim>\<open>trans-unit\<close> (nesting levels 0 to 3) and at
  the end of the document, and a newline and two spaces before \<^verbatim>\<open>note\<close>, \<^verbatim>\<open>source\<close>
  and \<^verbatim>\<open>target\<close> (nesting level 4).
\<close>

theorem writer_indentation:
  "(map fieldsRead ms = map fieldsRead ms' \<longrightarrow>
      xlbDocument loc ms = xlbDocument loc ms' \<and>
      ((\<forall>m \<in> set ms. map_option contents (tr (name m)) = map_option contents (tr' (name m))) \<longrightarrow>
         encodeLocale src tr ms tgt = encodeLocale src tr' ms' tgt)) \<and>
   indentedByLevel (xlbDocument loc ms) \<and>
   layoutRows (encodeLocale src tr ms tgt) =
     [(Opening ''xliff'', 0, [CHR 0x0A]), (Opening ''file'', 1, [CHR 0x0A]),
      (Opening ''body'', 2, [CHR 0x0A])] @
     concat (map (\<lambda>m. (Opening ''trans-unit'', 3, [CHR 0x0A]) # xliffUnitRows tr m) ms) @
     [(Closing ''body'', 2, [CHR 0x0A]), (Closing ''file'', 1, [CHR 0x0A]),
      (Closing ''xliff'', 0, [CHR 0x0A]), (EndOfDocument, 0, [CHR 0x0A])]"
proof (intro conjI impI)
  assume "map fieldsRead ms = map fieldsRead ms'"
  then show "xlbDocument loc ms = xlbDocument loc ms'" by (rule xlbDocument_fieldsRead)
next
  assume "map fieldsRead ms = map fieldsRead ms'"
    and "\<forall>m \<in> set ms. map_option contents (tr (name m)) = map_option contents (tr' (name m))"
  then show "encodeLocale src tr ms tgt = encodeLocale src tr' ms' tgt"
    by (rule encodeLocale_fieldsRead)
next
  show "indentedByLevel (xlbDocument loc ms)"
    by (auto simp: indentedByLevel_def layout_xlb Text_nodeValue_indent)
next
  show "layoutRows (encodeLocale src tr ms tgt) =
     [(Opening ''xliff'', 0, [CHR 0x0A]), (Opening ''file'', 1, [CHR 0x0A]),
      (Opening ''body'', 2, [CHR 0x0A])] @
     concat (map (\<lambda>m. (Opening ''trans-unit'', 3, [CHR 0x0A]) # xliffUnitRows tr m) ms) @
     [(Closing ''body'', 2, [CHR 0x0A]), (Closing ''file'', 1, [CHR 0x0A]),
      (Closing ''xliff'', 0, [CHR 0x0A]), (EndOfDocument, 0, [CHR 0x0A])]"
    by (rule layout_xliff)
qed

text \<open>
  The claim as stated, two spaces per nesting level in each codec, fails on the XLIFF
  document of any input: \<^verbatim>\<open>file\<close> stands at level 1 behind a bare newline, where the
  convention has a newline and two spaces.
\<close>

theorem writer_indentation_counterexample:
  "\<not> indentedByLevel (encodeLocale ''en'' Map.empty ([] :: ProgramMessage list) ''es'') \<and>
   (Opening ''file'', 1, [CHR 0x0A]) \<in> set (layoutRows
      (encodeLocale ''en'' Map.empty ([] :: ProgramMessage list) ''es'')) \<and>
   indent 1 = Text (CHR 0x0A # ''  '')"
  by (simp add: indentedByLevel_def layout_xliff indent_def)

theorem writer_indentation_witness:
  "map fieldsRead [greeting] = map fieldsRead [greeting] \<and>
   map_option contents ([''greeting'' \<mapsto> saludo] (name greeting)) =
      map_option contents ([''greeting'' \<mapsto> saludo\<lparr>name := ''saludo''\<rparr>] (name greeting)) \<and>
   encodeLocale ''en'' [''greeting'' \<mapsto> saludo] [greeting] ''es'' =
     encodeLocale ''en'' [''greeting'' \<mapsto> saludo\<lparr>name := ''saludo''\<rparr>] [greeting] ''es'' \<and>
   indentedByLevel (xlbDocument ''en'' [greeting]) \<and>
   layoutRows (xlbDocument ''en'' [greeting]) =
     [(Opening ''localizationbundle'', 0, [CHR 0x0A]),
      (Opening ''messages'', 1, CHR 0x0A # ''  ''),
      (Opening ''msg'', 2, CHR 0x0A # ''    ''),
      (Closing ''messages'', 1, CHR 0x0A # ''  ''),
      (Closing ''localizationbundle'', 0, [CHR 0x0A]),
      (EndOfDocument, 0, [CHR 0x0A])] \<and>
   layoutRows (encodeLocale ''en'' [''greeting'' \<mapsto> saludo] [greeting] ''es'') =
     [(Opening ''xliff'', 0, [CHR 0x0A]), (Opening ''file'', 1, [CHR 0x0A]),
      (Opening ''body'', 2, [CHR 0x0A]), (Opening ''trans-unit'', 3, [CHR 0x0A]),
      (Opening ''note'', 4, CHR 0x0A # ''  ''), (Opening ''source'', 4, CHR 0x0A # ''  ''),
      (Opening ''target'', 4, CHR 0x0A # ''  ''), (Closing ''trans-unit'', 3, [CHR 0x0A]),
      (Closing ''body'', 2, [CHR 0x0A]), (Closing ''file'', 1, [CHR 0x0A]),
      (Closing ''xliff'', 0, [CHR 0x0A]), (EndOfDocument, 0, [CHR 0x0A])]"
  using writer_indentation [of "[greeting]" "[greeting]" "''en''"
      "[''greeting'' \<mapsto> saludo]" "[''greeting'' \<mapsto> saludo\<lparr>name := ''saludo''\<rparr>]"
      "''en''" "''es''"]
  by (simp add: layout_xlb layout_xliff indent_def numeral_2_eq_2
        xliffUnitRows_def greeting_def saludo_def)

section \<open>Claim C10: units are found by tag name, at any depth\<close>

text \<open>
  C10. Both readers find their units with \<^verbatim>\<open>getElementsByTagName\<close>. When \<^verbatim>\<open>parseXmb\<close>
  returns a bundle, every \<^verbatim>\<open>msg\<close> element anywhere below the document, inside the
  \<^verbatim>\<open>localizationbundle\<close> element or not, has its message in the bundle. When \<^verbatim>\<open>parseXlif\<close>
  returns a bundle, every \<^verbatim>\<open>trans-unit\<close> anywhere below the \<^verbatim>\<open>file\<close> element that has a
  \<^verbatim>\<open>target\<close> anywhere below it has its message in the bundle, with the contents of that
  \<^verbatim>\<open>target\<close>.
\<close>

theorem units_found_at_any_depth:
  "(parseXmb doc = Inr b \<and> below m doc \<and> m = Element ''msg'' as cs \<longrightarrow>
      (\<exists>nm cts. map_of as ''name'' = Some nm \<and> parseContents ''msg'' cs = Inr cts \<and>
         \<lparr>name = nm, contents = cts\<rparr> \<in> set (messages b))) \<and>
   (parseXlif doc = Inr b \<and> below file doc \<and> file = Element ''file'' fas fcs \<and>
    below tu file \<and> tu = Element ''trans-unit'' tas tcs \<and>
    below tgt tu \<and> tgt = Element ''target'' gas gcs \<longrightarrow>
      (\<exists>nm cts. map_of tas ''id'' = Some nm \<and> parseContents ''trans-unit'' gcs = Inr cts \<and>
         \<lparr>name = nm, contents = cts\<rparr> \<in> set (messages b)))"
proof (intro conjI impI)
  assume h: "parseXmb doc = Inr b \<and> below m doc \<and> m = Element ''msg'' as cs"
  then have "m \<in> set (getElementsByTagName doc ''msg'')"
    by (auto simp: getElementsByTagName_set)
  with traverse_Inr_D [OF parseXmb_msgs] h obtain msg
    where "msg \<in> set (messages b)" "parseMsg m = Inr msg" by blast
  with h parseMsg_Element [of "''msg''" as cs msg]
  show "\<exists>nm cts. map_of as ''name'' = Some nm \<and> parseContents ''msg'' cs = Inr cts \<and>
         \<lparr>name = nm, contents = cts\<rparr> \<in> set (messages b)" by auto
next
  assume h: "parseXlif doc = Inr b \<and> below file doc \<and> file = Element ''file'' fas fcs \<and>
    below tu file \<and> tu = Element ''trans-unit'' tas tcs \<and>
    below tgt tu \<and> tgt = Element ''target'' gas gcs"
  from h parseXlif_units obtain file' ms where
    f: "getElementsByTagName doc ''file'' = [file']" and
    t: "traverse parseTransUnit (getElementsByTagName file' ''trans-unit'') = Inr ms" and
    m: "messages b = List.map_filter id ms" by blast
  from h have "file \<in> set (getElementsByTagName doc ''file'')"
    by (auto simp: getElementsByTagName_set)
  with f have "file' = file" by simp
  moreover from h have "tu \<in> set (getElementsByTagName file ''trans-unit'')"
    by (auto simp: getElementsByTagName_set)
  ultimately obtain r where r: "r \<in> set ms" "parseTransUnit tu = Inr r"
    using traverse_Inr_D [OF t] by blast
  from h have "tgt \<in> set (getElementsByTagName tu ''target'')"
    by (auto simp: getElementsByTagName_set)
  with r h parseTransUnit_target [of "''trans-unit''" tas tcs r tgt]
  obtain nm cts where "map_of tas ''id'' = Some nm"
    "parseContents ''trans-unit'' gcs = Inr cts" "r = Some \<lparr>name = nm, contents = cts\<rparr>" by auto
  with r m show "\<exists>nm cts. map_of tas ''id'' = Some nm \<and> parseContents ''trans-unit'' gcs = Inr cts \<and>
         \<lparr>name = nm, contents = cts\<rparr> \<in> set (messages b)"
    by (auto simp: map_filter_id_set)
qed

theorem units_found_at_any_depth_witness:
  "parseXmb (Document [Element ''wrapper'' []
       [Element ''localizationbundle'' [(''locale'', ''es'')] [],
        Element ''div'' [] [Element ''msg'' [(''name'', ''stray'')] [Text ''Hola'']]]])
     = Inr \<lparr>bundleLocale = ''es'', messages = [\<lparr>name = ''stray'', contents = [Str ''Hola'']\<rparr>]\<rparr> \<and>
   below (Element ''msg'' [(''name'', ''stray'')] [Text ''Hola''])
     (Document [Element ''wrapper'' []
       [Element ''localizationbundle'' [(''locale'', ''es'')] [],
        Element ''div'' [] [Element ''msg'' [(''name'', ''stray'')] [Text ''Hola'']]]]) \<and>
   parseXlif (Document [Element ''xliff'' [] [Element ''file'' [(''target-language'', ''es'')]
       [Element ''group'' [] [Element ''trans-unit'' [(''id'', ''greeting'')]
          [Element ''seg'' [] [Element ''target'' [] [Text ''Hola'']]]]]]])
     = Inr \<lparr>bundleLocale = ''es'', messages = [\<lparr>name = ''greeting'', contents = [Str ''Hola'']\<rparr>]\<rparr> \<and>
   below (Element ''target'' [] [Text ''Hola''])
     (Element ''trans-unit'' [(''id'', ''greeting'')]
          [Element ''seg'' [] [Element ''target'' [] [Text ''Hola'']]]) \<and>
   below (Element ''trans-unit'' [(''id'', ''greeting'')]
          [Element ''seg'' [] [Element ''target'' [] [Text ''Hola'']]])
     (Element ''file'' [(''target-language'', ''es'')]
       [Element ''group'' [] [Element ''trans-unit'' [(''id'', ''greeting'')]
          [Element ''seg'' [] [Element ''target'' [] [Text ''Hola'']]]]]) \<and>
   \<lparr>name = ''stray'', contents = [Str ''Hola'']\<rparr>
     \<in> set (messages \<lparr>bundleLocale = ''es'',
                        messages = [\<lparr>name = ''stray'', contents = [Str ''Hola'']\<rparr>]\<rparr>)"
proof -
  have x: "parseXmb (Document [Element ''wrapper'' []
       [Element ''localizationbundle'' [(''locale'', ''es'')] [],
        Element ''div'' [] [Element ''msg'' [(''name'', ''stray'')] [Text ''Hola'']]]])
     = Inr \<lparr>bundleLocale = ''es'', messages = [\<lparr>name = ''stray'', contents = [Str ''Hola'']\<rparr>]\<rparr>"
    by code_simp
  have y: "parseXlif (Document [Element ''xliff'' [] [Element ''file'' [(''target-language'', ''es'')]
       [Element ''group'' [] [Element ''trans-unit'' [(''id'', ''greeting'')]
          [Element ''seg'' [] [Element ''target'' [] [Text ''Hola'']]]]]]])
     = Inr \<lparr>bundleLocale = ''es'', messages = [\<lparr>name = ''greeting'', contents = [Str ''Hola'']\<rparr>]\<rparr>"
    by code_simp
  show ?thesis
    using x y
      units_found_at_any_depth [of
        "Document [Element ''wrapper'' []
           [Element ''localizationbundle'' [(''locale'', ''es'')] [],
            Element ''div'' [] [Element ''msg'' [(''name'', ''stray'')] [Text ''Hola'']]]]"
        "\<lparr>bundleLocale = ''es'', messages = [\<lparr>name = ''stray'', contents = [Str ''Hola'']\<rparr>]\<rparr>"
        "Element ''msg'' [(''name'', ''stray'')] [Text ''Hola'']"
        "[(''name'', ''stray'')]" "[Text ''Hola'']"]
    by (simp add: below_Document below_Element)
qed


end
